theory Spec2Isabelle
  imports Complex_Main "HOL-Library.Sublist" "HOL-Library.Code_Target_Nat"
begin

section \<open>Python strings\<close>

text \<open>
  A Python \<open>str\<close> is modelled as a \<open>string\<close>: a list of characters, one list element
  per character counted by \<open>len\<close>.  The helpers below are the \<open>str\<close> methods the
  ingestion scripts call.
\<close>

text \<open>\<open>needle in haystack\<close> for two strings: the needle occurs as a contiguous run.\<close>

fun str_in :: "string \<Rightarrow> string \<Rightarrow> bool" where
  "str_in p [] = (p = [])"
| "str_in p (c # cs) = (prefix p (c # cs) \<or> str_in p cs)"

text \<open>\<open>str.isspace\<close> on a single character (code points below 256), which is also what
  \<open>str.strip()\<close>, \<open>str.split()\<close> and the regular expression class \<open>\s\<close> use.\<close>

definition is_space :: "char \<Rightarrow> bool" where
  "is_space c = (of_char c \<in> {9, 10, 11, 12, 13, 28, 29, 30, 31, 32, 133, 160 :: nat})"

definition strip :: "string \<Rightarrow> string" where
  "strip s = rev (dropWhile is_space (rev (dropWhile is_space s)))"

text \<open>\<open>len(s.split())\<close>: the number of maximal runs of non-whitespace characters.
  The flag says whether the scan is inside a word.\<close>

fun count_words :: "bool \<Rightarrow> string \<Rightarrow> nat" where
  "count_words inw [] = 0"
| "count_words inw (c # cs) =
     (if is_space c then count_words False cs
      else if inw then count_words True cs
      else Suc (count_words True cs))"

definition split_len :: "string \<Rightarrow> nat" where
  "split_len s = count_words False s"

text \<open>\<open>str.lower()\<close> on code points below 256: the capitals \<open>A\<close> to \<open>Z\<close> and the
  Latin-1 capitals U+00C0 to U+00DE (without the multiplication sign U+00D7) move up
  by 32, every other character stays.  \<open>str.upper()\<close> and \<open>str.title()\<close> do not stay
  below 256 (\<open>'\xff'.upper()\<close> is U+0178, \<open>'\xb5'.upper()\<close> is U+039C) and are not
  character by character (\<open>'\xdf'.upper()\<close> is \<open>'SS'\<close>); they are taken from the
  Python library as it is, see \<open>py_env\<close> below.\<close>

definition lower_char :: "char \<Rightarrow> char" where
  "lower_char c =
     (let n = (of_char c :: nat) in
      if (65 \<le> n \<and> n \<le> 90) \<or> (192 \<le> n \<and> n \<le> 222 \<and> n \<noteq> 215)
      then char_of (n + 32) else c)"

definition lower :: "string \<Rightarrow> string" where
  "lower s = map lower_char s"

text \<open>\<open>s.replace(a, b)\<close> for one-character \<open>a\<close> and \<open>b\<close>.\<close>

definition replace_char :: "char \<Rightarrow> char \<Rightarrow> string \<Rightarrow> string" where
  "replace_char a b s = map (\<lambda>c. if c = a then b else c) s"

text \<open>\<open>s.split(sep)[-1]\<close> for a non-empty separator: the text after the last
  occurrence of \<open>sep\<close>, scanning left to right without overlaps.  \<open>skip\<close> counts the
  characters of a separator just matched that are still to be passed over; \<open>cur\<close> is
  the current piece, reversed.\<close>

fun split_last :: "string \<Rightarrow> nat \<Rightarrow> string \<Rightarrow> string \<Rightarrow> string" where
  "split_last sep skip cur [] = rev cur"
| "split_last sep skip cur (c # cs) =
     (if 0 < skip then split_last sep (skip - 1) cur cs
      else if prefix sep (c # cs) then split_last sep (length sep - 1) [] cs
      else split_last sep 0 (c # cur) cs)"

section \<open>Effects and errors\<close>

text \<open>A Python exception that reaches the caller is the \<open>Inl\<close> of a result.\<close>

datatype exn =
    ConnectionError
  | HTTPError nat
  | JSONDecodeError
  | TypeError
  | KeyError
  | AttributeError
  | ValueError
  | OSError
  | APIError
  | DataError
  | SystemExit nat

type_synonym embedding = "real list"

text \<open>What a run does to the outside world, in the order it does it.\<close>

datatype event =
    HttpGet string
  | Sleep nat
  | ReadFile string
  | EmbeddingRequest string
  | Upsert string string string

section \<open>JSON values\<close>

text \<open>What \<open>response.json()\<close> returns and what \<open>json.dumps\<close> takes.  An object is the
  list of its entries, with distinct keys.\<close>

datatype json =
    JNull
  | JBool bool
  | JNum real
  | JStr string
  | JArr "json list"
  | JObj "(string \<times> json) list"

section \<open>Python operations on JSON values\<close>

text \<open>\<open>key in obj\<close> for a string key: a dict looks among its keys, a list among its
  elements, a string for a substring; \<open>None\<close>, booleans and numbers are not iterable.\<close>

fun py_contains :: "string \<Rightarrow> json \<Rightarrow> exn + bool" where
  "py_contains key (JObj kvs) = Inr (key \<in> set (map fst kvs))"
| "py_contains key (JArr xs) = Inr (JStr key \<in> set xs)"
| "py_contains key (JStr s) = Inr (str_in key s)"
| "py_contains key v = Inl TypeError"

text \<open>\<open>obj[key]\<close> for a string key.\<close>

fun py_getitem :: "json \<Rightarrow> string \<Rightarrow> exn + json" where
  "py_getitem (JObj kvs) key = (case map_of kvs key of None \<Rightarrow> Inl KeyError | Some v \<Rightarrow> Inr v)"
| "py_getitem v key = Inl TypeError"

text \<open>\<open>obj.get(key, default)\<close>: only a dict has the method.\<close>

fun py_get :: "json \<Rightarrow> string \<Rightarrow> json \<Rightarrow> exn + json" where
  "py_get (JObj kvs) key dflt = Inr (case map_of kvs key of None \<Rightarrow> dflt | Some v \<Rightarrow> v)"
| "py_get v key dflt = Inl AttributeError"

text \<open>\<open>obj.items()\<close>.\<close>

fun py_items :: "json \<Rightarrow> exn + (string \<times> json) list" where
  "py_items (JObj kvs) = Inr kvs"
| "py_items v = Inl AttributeError"


text \<open>\<open>s.upper()\<close> on a value: only a string has the method.  \<open>str_upper\<close> is
  \<open>str.upper\<close>.\<close>

fun py_upper :: "(string \<Rightarrow> string) \<Rightarrow> json \<Rightarrow> exn + string" where
  "py_upper str_upper (JStr s) = Inr (str_upper s)"
| "py_upper str_upper v = Inl AttributeError"

text \<open>The truth value of \<open>if obj:\<close>.\<close>

fun truthy :: "json \<Rightarrow> bool" where
  "truthy JNull = False"
| "truthy (JBool b) = b"
| "truthy (JNum x) = (x \<noteq> 0)"
| "truthy (JStr s) = (s \<noteq> [])"
| "truthy (JArr xs) = (xs \<noteq> [])"
| "truthy (JObj kvs) = (kvs \<noteq> [])"

text \<open>\<open>f"{obj}"\<close>: a string is inserted as it is, any other value as \<open>str(obj)\<close>
  renders it (\<open>py_str\<close>, Python's own formatting).\<close>

fun fmt :: "(json \<Rightarrow> string) \<Rightarrow> json \<Rightarrow> string" where
  "fmt py_str (JStr s) = s"
| "fmt py_str v = py_str v"

text \<open>\<open>sep.join(parts)\<close>.\<close>

fun join :: "string \<Rightarrow> string list \<Rightarrow> string" where
  "join sep [] = []"
| "join sep [p] = p"
| "join sep (p # q # ps) = p @ sep @ join sep (q # ps)"

text \<open>Sequencing of steps that may raise.\<close>

definition bind_exn :: "exn + 'a \<Rightarrow> ('a \<Rightarrow> exn + 'b) \<Rightarrow> exn + 'b" where
  "bind_exn r f = (case r of Inl e \<Rightarrow> Inl e | Inr v \<Rightarrow> f v)"

definition newline :: string where
  "newline = [CHR 0x0A]"

section \<open>Embedding generation\<close>

definition MAX_CHARS :: nat where
  "MAX_CHARS = 30000"

text \<open>The first statement of every \<open>EmbeddingGenerator.generate_embedding\<close>:
  \<^verbatim>\<open>if len(text) > MAX_CHARS: text = text[:MAX_CHARS] + "... [TRUNCATED]"\<close>.\<close>

definition truncate_text :: "string \<Rightarrow> string" where
  "truncate_text text =
     (if length text > MAX_CHARS then take MAX_CHARS text @ ''... [TRUNCATED]'' else text)"

text \<open>\<open>generate_embedding\<close> of \<open>ingest_birdeye_simple\<close>, \<open>ingest_solana\<close> and
  \<open>ingest_solana_comprehensive\<close>: truncate, one call of the embeddings API with the
  truncated text, and the API's failure re-raised.  \<open>api\<close> is the embedding service
  behind \<open>client.embeddings.create\<close>.\<close>

definition generate_embedding ::
  "(string \<Rightarrow> exn + embedding) \<Rightarrow> string \<Rightarrow> (exn + embedding) \<times> event list" where
  "generate_embedding api text =
     (let text' = truncate_text text in
      (case api text' of Inl e \<Rightarrow> Inl e | Inr v \<Rightarrow> Inr v, [EmbeddingRequest text']))"

text \<open>\<open>generate_embedding\<close> of \<open>ingest_birdeye\<close>: the same truncation, then a POST
  whose answer is a status and, for status 200, the embedding read from the body
  (\<open>result['data'][0]['embedding']\<close>, which raises when the body has no such entry).\<close>

definition generate_embedding_http ::
  "(string \<Rightarrow> exn + nat \<times> embedding option) \<Rightarrow> string \<Rightarrow> (exn + embedding) \<times> event list" where
  "generate_embedding_http post text =
     (let text' = truncate_text text in
      (case post text' of
         Inl e \<Rightarrow> Inl e
       | Inr (status, body) \<Rightarrow>
           if status \<noteq> 200 then Inl APIError
           else (case body of None \<Rightarrow> Inl KeyError | Some v \<Rightarrow> Inr v),
       [EmbeddingRequest text']))"

section \<open>The documents table\<close>

text \<open>
  A row of table \<open>documents\<close>, with the columns the scripts name.  \<open>created_at\<close> stands
  for the columns no ingestion statement names (the validation script orders by it);
  such a column gets its value from the table's declaration when a row is inserted.
  \<open>metadata\<close> holds the text produced by \<open>json.dumps\<close>.
\<close>

record row =
  doc_type :: string
  source_name :: string
  doc_path :: string
  content :: string
  metadata :: string
  embedding :: embedding
  token_count :: nat
  created_at :: nat
  updated_at :: nat

record source_row =
  src_doc_type :: string
  src_source_name :: string
  src_version :: string
  src_config :: string
  src_enabled :: bool
  src_total_docs :: nat
  src_total_tokens :: nat
  src_updated_at :: nat

text \<open>A connection with the database behind it: the two tables, the number of
  statements executed so far, the keys of the \<open>INSERT INTO documents\<close> statements
  executed, oldest first, and whether the connection has a codec for the type
  \<open>vector\<close> of column \<open>embedding\<close>.  asyncpg has no such codec of its own;
  \<open>register_vector\<close> of \<open>pgvector.asyncpg\<close> installs one on a connection.\<close>

record db =
  documents :: "row list"
  document_sources :: "source_row list"
  statements :: nat
  journal :: "(string \<times> string \<times> string) list"
  vector_codec :: bool

text \<open>
  What the database server contributes to a statement, as a function of the
  statement's number: \<open>CURRENT_TIMESTAMP\<close>, and the declared defaults of the columns
  an \<open>INSERT\<close> leaves out (the table declarations are not part of the scripts).
\<close>

record db_env =
  current_timestamp :: "nat \<Rightarrow> nat"
  default_created_at :: "nat \<Rightarrow> nat"
  default_updated_at :: "nat \<Rightarrow> nat"
  default_total_docs :: "nat \<Rightarrow> nat"
  default_total_tokens :: "nat \<Rightarrow> nat"

definition row_key :: "row \<Rightarrow> string \<times> string \<times> string" where
  "row_key r = (doc_type r, source_name r, doc_path r)"

text \<open>The \<open>DO UPDATE SET\<close> list of the four \<open>INSERT INTO documents\<close> statements.\<close>

definition do_update :: "string \<Rightarrow> string \<Rightarrow> embedding \<Rightarrow> nat \<Rightarrow> nat \<Rightarrow> row \<Rightarrow> row" where
  "do_update c m e tc now r =
     r\<lparr>content := c, metadata := m, embedding := e, token_count := tc, updated_at := now\<rparr>"

text \<open>
  \<^verbatim>\<open>INSERT INTO documents (doc_type, source_name, doc_path, content, metadata,
       embedding, token_count) VALUES (...)
     ON CONFLICT (doc_type, source_name, doc_path) DO UPDATE SET content = ...,
       metadata = ..., embedding = ..., token_count = ..., updated_at = CURRENT_TIMESTAMP\<close>
  on a table with a unique index on the three key columns: a row with the key is
  updated in place, otherwise a new row is added.
\<close>

definition upsert_document ::
  "db_env \<Rightarrow> string \<Rightarrow> string \<Rightarrow> string \<Rightarrow> string \<Rightarrow> string \<Rightarrow> embedding \<Rightarrow> nat \<Rightarrow> db \<Rightarrow> db" where
  "upsert_document env dt sn dp c m e tc conn =
     (let n = statements conn;
          rows = documents conn;
          rows' =
            (if (dt, sn, dp) \<in> set (map row_key rows)
             then map (\<lambda>r. if row_key r = (dt, sn, dp)
                             then do_update c m e tc (current_timestamp env n) r else r) rows
             else rows @
               [\<lparr>doc_type = dt, source_name = sn, doc_path = dp, content = c, metadata = m,
                 embedding = e, token_count = tc, created_at = default_created_at env n,
                 updated_at = default_updated_at env n\<rparr>])
      in conn\<lparr>documents := rows', statements := Suc n,
              journal := journal conn @ [(dt, sn, dp)]\<rparr>)"

text \<open>\<open>asyncpg.connect\<close>, \<open>register_vector(conn)\<close> and \<open>conn.close()\<close>.\<close>

definition connect :: "db \<Rightarrow> db" where
  "connect database = database\<lparr>vector_codec := False\<rparr>"

definition register_vector :: "db \<Rightarrow> db" where
  "register_vector conn = conn\<lparr>vector_codec := True\<rparr>"

definition close :: "db \<Rightarrow> db" where
  "close conn = conn\<lparr>vector_codec := False\<rparr>"

text \<open>
  \<open>conn.execute\<close> of that statement with a Python list of floats as the argument for
  column \<open>embedding\<close>.  asyncpg encodes the arguments before the statement runs: on a
  connection without a codec for \<open>vector\<close> it expects text for this argument and
  raises \<open>DataError\<close> at a list, and the statement is not executed.
\<close>

definition execute_upsert ::
  "db_env \<Rightarrow> string \<Rightarrow> string \<Rightarrow> string \<Rightarrow> string \<Rightarrow> string \<Rightarrow> embedding \<Rightarrow> nat \<Rightarrow> db
     \<Rightarrow> exn + db" where
  "execute_upsert env dt sn dp c m e tc conn =
     (if vector_codec conn then Inr (upsert_document env dt sn dp c m e tc conn)
      else Inl DataError)"

text \<open>Two states of the table that differ at most in \<open>updated_at\<close>.\<close>

definition erase_updated_at :: "row \<Rightarrow> row" where
  "erase_updated_at r = r\<lparr>updated_at := 0\<rparr>"

definition same_upto_updated_at :: "row list \<Rightarrow> row list \<Rightarrow> bool" where
  "same_upto_updated_at rows rows' = (map erase_updated_at rows = map erase_updated_at rows')"

text \<open>The composite key is unique in the table.\<close>

definition unique_keys :: "row list \<Rightarrow> bool" where
  "unique_keys rows = distinct (map row_key rows)"

text \<open>The duplicate check of \<open>validate_new_database\<close>:
  \<^verbatim>\<open>SELECT doc_type, source_name, doc_path, COUNT(*) FROM documents
     GROUP BY doc_type, source_name, doc_path HAVING COUNT(*) > 1\<close>.\<close>

definition duplicates :: "row list \<Rightarrow> ((string \<times> string \<times> string) \<times> nat) list" where
  "duplicates rows =
     (let keys = map row_key rows in
      filter (\<lambda>(k, n). n > 1) (map (\<lambda>k. (k, count_list keys k)) (remdups keys)))"

section \<open>Storing BirdEye endpoints (ingest\_birdeye)\<close>

text \<open>The dataclass \<open>BirdEyeEndpoint\<close>.  \<open>title\<close> and \<open>path\<close> are whatever the response
  held under these names, \<open>method\<close> is the result of \<open>.upper()\<close>, \<open>metadata\<close> the dict
  built by the extractor.\<close>

record endpoint =
  ep_url :: string
  ep_title :: json
  ep_method :: string
  ep_path :: json
  ep_content :: string
  ep_metadata :: json

text \<open>\<open>DatabaseManager.store_document\<close>.  \<open>endpoint.path.replace\<close> raises when the path
  is not a string, before \<open>conn.execute\<close> is called.\<close>

definition store_document ::
  "db_env \<Rightarrow> (json \<Rightarrow> string) \<Rightarrow> db \<Rightarrow> endpoint \<Rightarrow> embedding \<Rightarrow> exn + db" where
  "store_document env json_dumps conn endpoint emb =
     (case ep_path endpoint of
        JStr p \<Rightarrow>
          (let doc_path = lower (ep_method endpoint) @ replace_char CHR ''/'' CHR ''_'' p in
           execute_upsert env ''birdeye'' ''birdeye-api'' doc_path (ep_content endpoint)
             (json_dumps (ep_metadata endpoint)) emb (split_len (ep_content endpoint)) conn)
      | _ \<Rightarrow> Inl AttributeError)"

text \<open>\<open>ensure_document_source\<close>: the upsert of the registry row.  \<open>config\<close> is the
  \<open>json.dumps\<close> of the configuration dict.\<close>

definition ensure_document_source :: "db_env \<Rightarrow> string \<Rightarrow> db \<Rightarrow> db" where
  "ensure_document_source env config conn =
     (let n = statements conn;
          srcs = document_sources conn;
          is_it = (\<lambda>s. src_doc_type s = ''birdeye'' \<and> src_source_name s = ''birdeye-api'');
          srcs' =
            (if list_ex is_it srcs
             then map (\<lambda>s. if is_it s
                             then s\<lparr>src_config := config, src_updated_at := current_timestamp env n\<rparr>
                             else s) srcs
             else srcs @
               [\<lparr>src_doc_type = ''birdeye'', src_source_name = ''birdeye-api'',
                 src_version = ''latest'', src_config = config, src_enabled = True,
                 src_total_docs = default_total_docs env n,
                 src_total_tokens = default_total_tokens env n,
                 src_updated_at = default_updated_at env n\<rparr>])
      in conn\<lparr>document_sources := srcs', statements := Suc n\<rparr>)"

text \<open>\<open>update_source_stats\<close>: the registry row gets the count and the token sum of the
  BirdEye rows.\<close>

definition update_source_stats :: "db \<Rightarrow> db" where
  "update_source_stats conn =
     (let mine = filter (\<lambda>r. doc_type r = ''birdeye'' \<and> source_name r = ''birdeye-api'')
                   (documents conn);
          srcs' =
            map (\<lambda>s. if src_doc_type s = ''birdeye'' \<and> src_source_name s = ''birdeye-api''
                      then s\<lparr>src_total_docs := length mine,
                             src_total_tokens := sum_list (map token_count mine)\<rparr>
                      else s) (document_sources conn)
      in conn\<lparr>document_sources := srcs', statements := Suc (statements conn)\<rparr>)"

text \<open>The loop of \<open>store_endpoints\<close> over \<open>zip(endpoints, embeddings)\<close>: it stops at the
  first exception, with the earlier statements already executed.\<close>

fun store_each ::
  "db_env \<Rightarrow> (json \<Rightarrow> string) \<Rightarrow> db \<Rightarrow> (endpoint \<times> embedding) list \<Rightarrow> (exn + unit) \<times> db" where
  "store_each env json_dumps conn [] = (Inr (), conn)"
| "store_each env json_dumps conn ((endpoint, emb) # rest) =
     (case store_document env json_dumps conn endpoint emb of
        Inl e \<Rightarrow> (Inl e, conn)
      | Inr conn' \<Rightarrow> store_each env json_dumps conn' rest)"

text \<open>\<open>DatabaseManager.store_endpoints\<close> of \<open>ingest_birdeye\<close>: it connects, and
  calls no \<open>register_vector\<close>; the connection is closed whether or not an exception
  ends the work.\<close>

definition store_endpoints ::
  "db_env \<Rightarrow> (json \<Rightarrow> string) \<Rightarrow> string \<Rightarrow> db \<Rightarrow> endpoint list \<Rightarrow> embedding list
     \<Rightarrow> (exn + unit) \<times> db" where
  "store_endpoints env json_dumps utcnow database endpoints embeddings =
     (let conn = connect database;
          config = json_dumps (JObj
            [(''base_url'', JStr ''https://docs.birdeye.so''),
             (''extraction_method'', JStr ''data-initial-props scraping''),
             (''last_ingestion'', JStr utcnow)]);
          conn1 = ensure_document_source env config conn
      in case store_each env json_dumps conn1 (zip endpoints embeddings) of
           (Inl e, conn2) \<Rightarrow> (Inl e, close conn2)
         | (Inr u, conn2) \<Rightarrow> (Inr (), close (update_source_stats conn2)))"

section \<open>Storing BirdEye endpoints (ingest\_birdeye\_simple)\<close>

text \<open>The dataclass \<open>BirdEyeEndpoint\<close> of the simple script: \<open>path\<close> is a key of the
  \<open>paths\<close> object and \<open>method\<close> an upper-cased key of a path's object.\<close>

record simple_endpoint =
  se_path :: string
  se_method :: string
  se_title :: json
  se_description :: json
  se_content :: string
  se_metadata :: json

text \<open>The loop of \<open>store_endpoints\<close> of \<open>ingest_birdeye_simple\<close> over
  \<open>zip(endpoints, embeddings)\<close>; an exception of \<open>conn.execute\<close> ends it.\<close>

fun store_each_simple ::
  "db_env \<Rightarrow> (json \<Rightarrow> string) \<Rightarrow> db \<Rightarrow> (simple_endpoint \<times> embedding) list
     \<Rightarrow> (exn + unit) \<times> db" where
  "store_each_simple env json_dumps conn [] = (Inr (), conn)"
| "store_each_simple env json_dumps conn ((endpoint, emb) # rest) =
     (let doc_path = se_method endpoint @ '' '' @ se_path endpoint in
      case execute_upsert env ''birdeye'' ''BirdEye API'' doc_path (se_content endpoint)
             (json_dumps (se_metadata endpoint)) emb (length (se_content endpoint) div 4) conn of
        Inl e \<Rightarrow> (Inl e, conn)
      | Inr conn' \<Rightarrow> store_each_simple env json_dumps conn' rest)"

text \<open>\<open>DatabaseManager.store_endpoints\<close> of \<open>ingest_birdeye_simple\<close>: it connects,
  registers the codec, runs the loop and closes the connection.  The result is the
  database it leaves behind.\<close>

definition store_endpoints_simple ::
  "db_env \<Rightarrow> (json \<Rightarrow> string) \<Rightarrow> db \<Rightarrow> simple_endpoint list \<Rightarrow> embedding list \<Rightarrow> db" where
  "store_endpoints_simple env json_dumps database endpoints embeddings =
     (let conn = register_vector (connect database) in
      close (snd (store_each_simple env json_dumps conn (zip endpoints embeddings))))"

section \<open>Storing Solana documents (ingest\_solana, ingest\_solana\_comprehensive)\<close>

text \<open>The dataclass \<open>SolanaDocument\<close>; \<open>file_type\<close> is the extra field of the
  comprehensive script (empty in the markdown-only script).\<close>

record solana_document =
  file_path :: string
  relative_path :: string
  title :: string
  doc_content :: string
  file_type :: string
  category :: string
  doc_metadata :: json

text \<open>The loop of \<open>store_documents\<close> over \<open>zip(documents, embeddings)\<close>; an exception of
  \<open>conn.execute\<close> ends it.\<close>

fun store_each_document ::
  "db_env \<Rightarrow> (json \<Rightarrow> string) \<Rightarrow> db \<Rightarrow> (solana_document \<times> embedding) list
     \<Rightarrow> (exn + unit) \<times> db" where
  "store_each_document env json_dumps conn [] = (Inr (), conn)"
| "store_each_document env json_dumps conn ((doc, emb) # rest) =
     (let doc_path = relative_path doc in
      case execute_upsert env ''solana'' ''Solana Agave'' doc_path (doc_content doc)
             (json_dumps (doc_metadata doc)) emb (length (doc_content doc) div 4) conn of
        Inl e \<Rightarrow> (Inl e, conn)
      | Inr conn' \<Rightarrow> store_each_document env json_dumps conn' rest)"

text \<open>\<open>DatabaseManager.store_documents\<close>, the same in both Solana scripts: it connects,
  registers the codec, runs the loop and closes the connection.  The result is the
  database it leaves behind.\<close>

definition store_documents ::
  "db_env \<Rightarrow> (json \<Rightarrow> string) \<Rightarrow> db \<Rightarrow> solana_document list \<Rightarrow> embedding list \<Rightarrow> db" where
  "store_documents env json_dumps database docs embeddings =
     (let conn = register_vector (connect database) in
      close (snd (store_each_document env json_dumps conn (zip docs embeddings))))"

text \<open>Any sequence of store operations of the ingestion scripts on one database; a
  store that ends with an exception leaves the database as it is at that point.\<close>

datatype store_op =
    BirdeyeStore string "endpoint list" "embedding list"
  | SimpleStore "simple_endpoint list" "embedding list"
  | SolanaStore "solana_document list" "embedding list"

fun run_store :: "db_env \<Rightarrow> (json \<Rightarrow> string) \<Rightarrow> store_op \<Rightarrow> db \<Rightarrow> db" where
  "run_store env json_dumps (BirdeyeStore utcnow eps embs) conn =
     snd (store_endpoints env json_dumps utcnow conn eps embs)"
| "run_store env json_dumps (SimpleStore eps embs) conn =
     store_endpoints_simple env json_dumps conn eps embs"
| "run_store env json_dumps (SolanaStore docs embs) conn =
     store_documents env json_dumps conn docs embs"

definition run_stores :: "db_env \<Rightarrow> (json \<Rightarrow> string) \<Rightarrow> store_op list \<Rightarrow> db \<Rightarrow> db" where
  "run_stores env json_dumps ops conn = fold (run_store env json_dumps) ops conn"

section \<open>Extracting a BirdEye endpoint (ingest\_birdeye)\<close>

text \<open>The Python library and the clock, as far as the extractor uses them: \<open>str()\<close> of a
  value that is not a string, \<open>json.dumps(obj, indent=2)\<close>,
  \<open>datetime.utcnow().isoformat()\<close>, \<open>str.upper\<close> and \<open>str.title\<close>.\<close>

record py_env =
  py_str :: "json \<Rightarrow> string"
  json_dumps_indent :: "json \<Rightarrow> string"
  utcnow_isoformat :: string
  str_upper :: "string \<Rightarrow> string"
  str_title :: "string \<Rightarrow> string"

definition api_url_of :: "string \<Rightarrow> string" where
  "api_url_of url =
     ''https://docs.birdeye.so/birdeyedotso/api-next/v2/branches/1.0/reference/''
       @ split_last ''/reference/'' 0 [] url @ ''?dereference=true&reduce=false''"

text \<open>\<open>response.raise_for_status()\<close>.\<close>

definition raise_for_status :: "nat \<Rightarrow> exn + unit" where
  "raise_for_status status =
     (if 400 \<le> status \<and> status < 600 then Inl (HTTPError status) else Inr ())"

text \<open>Method, path and schema from the \<open>api\<close> section.\<close>

definition api_section :: "py_env \<Rightarrow> json \<Rightarrow> exn + string \<times> json \<times> json" where
  "api_section py data_section =
     bind_exn (py_contains ''api'' data_section) (\<lambda>has_api.
       if has_api then
         bind_exn (py_getitem data_section ''api'') (\<lambda>api_info.
         bind_exn (py_get api_info ''method'' (JStr ''GET'')) (\<lambda>m.
         bind_exn (py_upper (str_upper py) m) (\<lambda>method.
         bind_exn (py_get api_info ''path'' (JStr ''/unknown'')) (\<lambda>path.
         bind_exn (py_contains ''schema'' api_info) (\<lambda>has_schema.
           if has_schema
           then bind_exn (py_getitem api_info ''schema'') (\<lambda>api_spec. Inr (method, path, api_spec))
           else Inr (method, path, JObj []))))))
       else Inr (''GET'', JStr ''/unknown'', JObj []))"

text \<open>The description: \<open>content_body\<close> and the lines it adds.\<close>

definition description_part :: "py_env \<Rightarrow> json \<Rightarrow> exn + json \<times> string list" where
  "description_part py data_section =
     bind_exn (py_contains ''content'' data_section) (\<lambda>has_content.
       if has_content then
         bind_exn (py_getitem data_section ''content'') (\<lambda>c.
         bind_exn (py_contains ''body'' c) (\<lambda>has_body.
           if has_body
           then bind_exn (py_getitem c ''body'') (\<lambda>content_body.
                  Inr (content_body,
                       [''**Description:**'' @ newline @ fmt (py_str py) content_body, '''']))
           else Inr (JStr '''', [])))
       else Inr (JStr '''', []))"

text \<open>The lines of the \<open>Metadata\<close> section.\<close>

definition metadata_part :: "py_env \<Rightarrow> json \<Rightarrow> exn + string list" where
  "metadata_part py data_section =
     bind_exn (py_contains ''metadata'' data_section) (\<lambda>has_metadata.
       if has_metadata then
         bind_exn (py_getitem data_section ''metadata'') (\<lambda>metadata_info.
           if truthy metadata_info then
             bind_exn (py_items metadata_info) (\<lambda>items.
               Inr ([''## Metadata'']
                    @ map (\<lambda>(key, val). ''**'' @ str_title py key @ '':** '' @ fmt (py_str py) val)
                        (filter (\<lambda>(key, val). truthy val) items)
                    @ ['''']))
           else Inr [])
       else Inr [])"

text \<open>Everything after \<open>data_section = data['data']\<close>.\<close>

definition build_endpoint :: "py_env \<Rightarrow> string \<Rightarrow> string \<Rightarrow> json \<Rightarrow> exn + endpoint" where
  "build_endpoint py url api_url data_section =
     bind_exn (py_get data_section ''title'' (JStr ''Unknown Endpoint'')) (\<lambda>title.
     bind_exn (api_section py data_section) (\<lambda>(method, path, api_spec).
     bind_exn (description_part py data_section) (\<lambda>(content_body, description).
     bind_exn (metadata_part py data_section) (\<lambda>metadata_lines.
       let content_parts =
             [''# '' @ fmt (py_str py) title,
              ''**Method:** '' @ method,
              ''**Path:** '' @ fmt (py_str py) path,
              '''']
             @ description
             @ (if truthy api_spec
                then [''## OpenAPI Specification'', ''```json'', json_dumps_indent py api_spec,
                      ''```'', '''']
                else [])
             @ metadata_lines;
           full_content = join newline content_parts
       in Inr \<lparr>ep_url = url, ep_title = title, ep_method = method, ep_path = path,
                ep_content = full_content,
                ep_metadata = JObj
                  [(''source_url'', JStr url),
                   (''api_url'', JStr api_url),
                   (''api_method'', JStr method),
                   (''api_path'', path),
                   (''title'', title),
                   (''openapi_spec'', api_spec),
                   (''content_body'', content_body),
                   (''extracted_at'', JStr (utcnow_isoformat py))]\<rparr>))))"

text \<open>The answer of \<open>session.get\<close>: an exception (no connection, timeout), or a status
  code with the body as \<open>response.json()\<close> parses it (\<open>None\<close> when it is not JSON).\<close>

type_synonym http = "string \<Rightarrow> exn + nat \<times> json option"

text \<open>The \<open>try\<close> block of \<open>extract_endpoint_data\<close>, with the requests it sends.\<close>

definition extract_try :: "http \<Rightarrow> py_env \<Rightarrow> string \<Rightarrow> (exn + endpoint option) \<times> event list" where
  "extract_try http_get py url =
     (if \<not> str_in ''/reference/'' url then (Inr None, [])
      else
        let api_url = api_url_of url in
        (bind_exn (http_get api_url) (\<lambda>(status, body).
         bind_exn (raise_for_status status) (\<lambda>u.
           case body of
             None \<Rightarrow> Inl JSONDecodeError
           | Some data \<Rightarrow>
               bind_exn (py_contains ''data'' data) (\<lambda>has_data.
                 if \<not> has_data then Inr None
                 else
                   bind_exn (py_getitem data ''data'') (\<lambda>data_section.
                   bind_exn (build_endpoint py url api_url data_section) (\<lambda>endpoint.
                     Inr (Some endpoint)))))),
         [HttpGet api_url]))"

text \<open>\<open>BirdEyeExtractor.extract_endpoint_data\<close>: the \<open>try\<close> block, and \<open>None\<close> for any
  exception it raises.\<close>

definition extract_endpoint_data ::
  "http \<Rightarrow> py_env \<Rightarrow> string \<Rightarrow> (exn + endpoint option) \<times> event list" where
  "extract_endpoint_data http_get py url =
     (case extract_try http_get py url of
        (Inl e, evs) \<Rightarrow> (Inr None, evs)
      | (Inr r, evs) \<Rightarrow> (Inr r, evs))"

text \<open>\<open>discover_all_endpoints\<close>: the curated list.\<close>

definition discover_all_endpoints :: "string list" where
  "discover_all_endpoints = map (\<lambda>slug. ''https://docs.birdeye.so/reference/'' @ slug)
     [''get-defi-price'', ''get-defi-multi_price'', ''post-defi-multi_price'',
      ''get-defi-historical_price_unix'', ''get-defi-history_price'',
      ''get-defi-price_volume-single'', ''post-defi-price_volume-multi'',
      ''get-defi-txs-token'', ''get-defi-txs-pair'', ''get-defi-txs-token-seek_by_time'',
      ''get-defi-txs-pair-seek_by_time'', ''get-defi-v3-txs'', ''get-defi-v3-token-txs'',
      ''get-defi-v3-txs-recent'',
      ''get-defi-ohlcv'', ''get-defi-ohlcv-pair'', ''get-defi-ohlcv-base_quote'',
      ''get-defi-v3-ohlcv'', ''get-defi-v3-ohlcv-pair'',
      ''get-defi-token_overview'', ''get-defi-token_security'', ''get-defi-token_creation_info'',
      ''get-defi-tokenlist'', ''get-defi-token_trending'', ''get-defi-v3-token-list'',
      ''get-defi-v3-token-list-scroll'', ''get-defi-v3-token-meta-data-single'',
      ''get-defi-v3-token-meta-data-multiple'', ''get-defi-v3-token-market-data'',
      ''get-defi-v3-token-market-data-multiple'', ''get-defi-v3-token-trade-data-single'',
      ''get-defi-v3-token-trade-data-multiple'',
      ''get-trader-gainers-losers'', ''get-trader-txs-seek_by_time'',
      ''get-v1-wallet-balance_change'', ''get-v1-wallet-portfolio'',
      ''get-v1-wallet-token_balance'', ''get-v1-wallet-tx_list'', ''get-v1-wallet-net_worth'',
      ''get-defi-v3-search'', ''get-defi-networks'', ''get-v1-wallet-list_supported_chain'']"

text \<open>The extraction loop of \<open>main\<close> over \<open>enumerate(endpoints_to_extract)\<close>: \<open>len\<close> is
  the length of the whole list and \<open>i\<close> the index of the first URL still to do.  One
  call of \<open>extract_endpoint_data\<close> for each URL, then the pause before the next one.\<close>

fun extract_loop ::
  "http \<Rightarrow> py_env \<Rightarrow> nat \<Rightarrow> nat \<Rightarrow> string list \<Rightarrow> (exn + endpoint list) \<times> event list" where
  "extract_loop http_get py len i [] = (Inr [], [])"
| "extract_loop http_get py len i (url # urls) =
     (case extract_endpoint_data http_get py url of
        (Inl e, evs) \<Rightarrow> (Inl e, evs)
      | (Inr endpoint, evs) \<Rightarrow>
          (let pause = (if i < len - 1 then [Sleep (if len > 20 then 15 else 10)] else []) in
           case extract_loop http_get py len (Suc i) urls of
             (Inl e, evs') \<Rightarrow> (Inl e, evs @ pause @ evs')
           | (Inr endpoints, evs') \<Rightarrow>
               (Inr ((case endpoint of None \<Rightarrow> [] | Some ep \<Rightarrow> [ep]) @ endpoints),
                evs @ pause @ evs')))"

text \<open>The embedding loop of \<open>main\<close>: it ends at the first exception.\<close>

type_synonym embed_post = "string \<Rightarrow> exn + nat \<times> embedding option"

fun embed_loop :: "embed_post \<Rightarrow> endpoint list \<Rightarrow> (exn + embedding list) \<times> event list" where
  "embed_loop post [] = (Inr [], [])"
| "embed_loop post (endpoint # endpoints) =
     (case generate_embedding_http post (ep_content endpoint) of
        (Inl e, evs) \<Rightarrow> (Inl e, evs)
      | (Inr emb, evs) \<Rightarrow>
          (case embed_loop post endpoints of
             (Inl e, evs') \<Rightarrow> (Inl e, evs @ [Sleep 1] @ evs')
           | (Inr embs, evs') \<Rightarrow> (Inr (emb # embs), evs @ [Sleep 1] @ evs')))"

text \<open>The statements on table \<open>documents\<close> that a store added to the journal, as
  events.\<close>

definition upsert_events :: "db \<Rightarrow> db \<Rightarrow> event list" where
  "upsert_events conn conn' =
     map (\<lambda>(dt, sn, dp). Upsert dt sn dp) (drop (length (journal conn)) (journal conn'))"

definition test_mode :: bool where
  "test_mode = True"

text \<open>\<open>main\<close> of \<open>ingest_birdeye\<close>, from the list of URLs on.\<close>

definition run_birdeye ::
  "http \<Rightarrow> embed_post \<Rightarrow> py_env \<Rightarrow> db_env \<Rightarrow> (json \<Rightarrow> string) \<Rightarrow> db \<Rightarrow> string list
     \<Rightarrow> (exn + unit) \<times> db \<times> event list" where
  "run_birdeye http_get post py env json_dumps conn endpoints_to_extract =
     (case extract_loop http_get py (length endpoints_to_extract) 0 endpoints_to_extract of
        (Inl e, evs1) \<Rightarrow> (Inl e, conn, evs1)
      | (Inr endpoints, evs1) \<Rightarrow>
          if endpoints = [] then (Inl (SystemExit 1), conn, evs1)
          else
            (case embed_loop post endpoints of
               (Inl e, evs2) \<Rightarrow> (Inl e, conn, evs1 @ evs2)
             | (Inr embeddings, evs2) \<Rightarrow>
                 (case store_endpoints env json_dumps (utcnow_isoformat py) conn endpoints embeddings of
                    (r, conn') \<Rightarrow> (r, conn', evs1 @ evs2 @ upsert_events conn conn'))))"

text \<open>\<open>main\<close> of \<open>ingest_birdeye\<close>: the two environment variables, the list of URLs
  (the first three in test mode), and the run.\<close>

definition main_birdeye ::
  "string option \<Rightarrow> string option \<Rightarrow> http \<Rightarrow> embed_post \<Rightarrow> py_env \<Rightarrow> db_env \<Rightarrow> (json \<Rightarrow> string) \<Rightarrow> db
     \<Rightarrow> (exn + unit) \<times> db \<times> event list" where
  "main_birdeye database_url openai_api_key http_get post py env json_dumps conn =
     (if database_url = None \<or> database_url = Some [] then (Inl (SystemExit 1), conn, [])
      else if openai_api_key = None \<or> openai_api_key = Some [] then (Inl (SystemExit 1), conn, [])
      else
        let all_endpoints = discover_all_endpoints;
            endpoints_to_extract = (if test_mode then take 3 all_endpoints else all_endpoints)
        in run_birdeye http_get post py env json_dumps conn endpoints_to_extract)"

section \<open>Endpoints from the OpenAPI specification (ingest\_birdeye\_simple)\<close>











section \<open>The repository files\<close>

text \<open>
  The file system below the repository directory, as the scripts see it: the paths
  relative to the repository directory in the order \<open>rglob\<close> walks them, the text
  \<open>open(path, 'r', encoding='utf-8', errors='ignore').read()\<close> returns, and the length
  of \<open>open(path, 'rb').read()\<close>; both reads raise for a path that cannot be opened.
\<close>

record filesystem =
  entries :: "string list"
  read_text :: "string \<Rightarrow> exn + string"
  read_size :: "string \<Rightarrow> exn + nat"

text \<open>\<open>str(Path(p).relative_to(self.repo_path))\<close> for a path written with \<open>/\<close>.\<close>

definition relative_to :: "string \<Rightarrow> string \<Rightarrow> exn + string" where
  "relative_to repo p =
     (if prefix (repo @ ''/'') p then Inr (drop (length repo + 1) p)
      else Inl ValueError)"

text \<open>\<open>repo_path.rglob("*" + ext)\<close>: the entries whose name ends with \<open>ext\<close>, as paths
  that start with the repository directory.\<close>

definition rglob :: "string \<Rightarrow> filesystem \<Rightarrow> string \<Rightarrow> string list" where
  "rglob repo fs ext = map (\<lambda>rel. repo @ ''/'' @ rel) (filter (suffix ext) (entries fs))"

text \<open>\<open>Path(p).name\<close> and \<open>Path(p).suffix\<close>: the suffix starts at the last dot of the
  name, unless that dot is the first or the last character of the name.\<close>

definition path_name :: "string \<Rightarrow> string" where
  "path_name p = rev (takeWhile (\<lambda>c. c \<noteq> CHR ''/'') (rev p))"

definition path_suffix :: "string \<Rightarrow> string" where
  "path_suffix p =
     (let name = path_name p;
          tail = rev (takeWhile (\<lambda>c. c \<noteq> CHR ''.'') (rev name))
      in if CHR ''.'' \<in> set name \<and> tail \<noteq> [] \<and> length tail + 1 < length name
         then CHR ''.'' # tail else [])"

section \<open>File discovery\<close>

definition skip_patterns :: "string list" where
  "skip_patterns =
     [''node_modules/'', ''.git/'', ''target/'', ''build/'', ''dist/'', ''CODEOWNERS'', ''NOTICE'']"

definition supported_extensions :: "string list" where
  "supported_extensions = [''.md'', ''.mdx'', ''.bob'', ''.msc'', ''.pdf'']"

text \<open>The body of the loop over the files \<open>rglob\<close> found: a file is skipped when a skip
  pattern occurs in its relative path, and kept otherwise.\<close>

fun select_files :: "string \<Rightarrow> string list \<Rightarrow> exn + string list" where
  "select_files repo [] = Inr []"
| "select_files repo (f # fs) =
     bind_exn (relative_to repo f) (\<lambda>relative_path.
     bind_exn (select_files repo fs) (\<lambda>rest.
       Inr (if list_ex (\<lambda>pattern. str_in pattern relative_path) skip_patterns
            then rest else f # rest)))"

text \<open>\<open>SolanaDocProcessor.discover_markdown_files\<close>.\<close>

definition discover_markdown_files :: "string \<Rightarrow> filesystem \<Rightarrow> exn + string list" where
  "discover_markdown_files repo fs = select_files repo (rglob repo fs ''.md'')"

text \<open>\<open>ComprehensiveSolanaProcessor.discover_documentation_files\<close>: one \<open>rglob\<close> for
  each supported extension, in the order of the list.\<close>

fun discover_extensions :: "string \<Rightarrow> filesystem \<Rightarrow> string list \<Rightarrow> exn + string list" where
  "discover_extensions repo fs [] = Inr []"
| "discover_extensions repo fs (ext # exts) =
     bind_exn (select_files repo (rglob repo fs ext)) (\<lambda>found.
     bind_exn (discover_extensions repo fs exts) (\<lambda>rest. Inr (found @ rest)))"

definition discover_documentation_files :: "string \<Rightarrow> filesystem \<Rightarrow> exn + string list" where
  "discover_documentation_files repo fs =
     discover_extensions repo fs supported_extensions"

section \<open>Regular expressions\<close>

text \<open>
  The two patterns of \<open>clean_markdown_content\<close> are sequences of single characters
  and greedy stars of a character class.  \<open>rx_match\<close> is the backtracking match at
  the start of a string: a star first takes one more character and gives it back when
  the rest of the pattern fails.  It returns the text after the match.
\<close>

datatype rx_item = One "char \<Rightarrow> bool" | Star "char \<Rightarrow> bool"

fun rx_match :: "rx_item list \<Rightarrow> string \<Rightarrow> string option" where
  "rx_match [] s = Some s"
| "rx_match (One p # items) [] = None"
| "rx_match (One p # items) (c # cs) = (if p c then rx_match items cs else None)"
| "rx_match (Star p # items) [] = rx_match items []"
| "rx_match (Star p # items) (c # cs) =
     (if p c
      then (case rx_match (Star p # items) cs of
              Some r \<Rightarrow> Some r
            | None \<Rightarrow> rx_match items (c # cs))
      else rx_match items (c # cs))"

text \<open>\<open>re.sub(pattern, repl, s)\<close> for a pattern without anchor: the leftmost match is
  replaced and the scan goes on behind it; where nothing matches the character is
  copied.  \<open>skip\<close> counts the characters of the last match still to be passed over.
  An empty match puts \<open>repl\<close> in front of the character it stands before.\<close>

fun re_sub :: "rx_item list \<Rightarrow> string \<Rightarrow> nat \<Rightarrow> string \<Rightarrow> string" where
  "re_sub items repl skip [] =
     (if skip = 0 \<and> rx_match items [] \<noteq> None then repl else [])"
| "re_sub items repl skip (c # cs) =
     (if 0 < skip then re_sub items repl (skip - 1) cs
      else (case rx_match items (c # cs) of
              None \<Rightarrow> c # re_sub items repl 0 cs
            | Some r \<Rightarrow>
                if length r < length (c # cs)
                then repl @ re_sub items repl (length cs - length r) cs
                else repl @ c # re_sub items repl 0 cs))"

text \<open>\<open>re.sub('^' + pattern, repl, s)\<close> without \<open>re.MULTILINE\<close>: the pattern can only
  match at the start of the string.\<close>

definition re_sub_at_start :: "rx_item list \<Rightarrow> string \<Rightarrow> string \<Rightarrow> string" where
  "re_sub_at_start items repl s = (case rx_match items s of None \<Rightarrow> s | Some r \<Rightarrow> repl @ r)"

definition is_newline :: "char \<Rightarrow> bool" where
  "is_newline c = (c = CHR 0x0A)"

section \<open>Processing Solana files\<close>

text \<open>\<open>clean_markdown_content\<close>:
  \<^verbatim>\<open>content = re.sub(r'\n\s*\n\s*\n', '\n\n', content)\<close>,
  \<^verbatim>\<open>content = re.sub(r'^\s*\n', '', content)\<close>, \<^verbatim>\<open>content = content.strip()\<close>.\<close>

definition clean_markdown_content :: "string \<Rightarrow> string" where
  "clean_markdown_content s =
     strip (re_sub_at_start [Star is_space, One is_newline] []
       (re_sub [One is_newline, Star is_space, One is_newline, Star is_space, One is_newline]
          (newline @ newline) 0 s))"

text \<open>
  What the processors use besides the file system: the repository directory, the
  clock, and the two helpers \<open>extract_title_from_content\<close> and \<open>categorize_document\<close>.
  The helpers compute the title from content, file path and file type, and the
  category from relative path and file type; they are taken as they come, since only
  the strings they return enter the document.
\<close>

record solana_env =
  repo_path :: string
  files :: filesystem
  extract_title_from_content :: "string \<Rightarrow> string \<Rightarrow> string \<Rightarrow> string"
  categorize_document :: "string \<Rightarrow> string \<Rightarrow> string"
  extracted_at :: string

text \<open>The \<open>try\<close> block of \<open>SolanaDocProcessor.process_markdown_file\<close>.\<close>

definition process_markdown_try ::
  "solana_env \<Rightarrow> string \<Rightarrow> (exn + solana_document option) \<times> event list" where
  "process_markdown_try env path =
     (case relative_to (repo_path env) path of
        Inl e \<Rightarrow> (Inl e, [])
      | Inr rel \<Rightarrow>
          (bind_exn (read_text (files env) path) (\<lambda>raw_content.
             if strip raw_content = [] then Inr None
             else
               let body = clean_markdown_content raw_content;
                   ttl = extract_title_from_content env body path '''';
                   cat = categorize_document env rel ''''
               in Inr (Some \<lparr>file_path = path, relative_path = rel, title = ttl,
                     doc_content = body, file_type = '''', category = cat,
                     doc_metadata = JObj
                       [(''source_type'', JStr ''markdown''),
                        (''file_path'', JStr rel),
                        (''category'', JStr cat),
                        (''file_size'', JNum (real (length body))),
                        (''extracted_at'', JStr (extracted_at env)),
                        (''repository'', JStr ''anza-xyz/agave'')]\<rparr>)),
           [ReadFile path]))"

text \<open>\<open>SolanaDocProcessor.process_markdown_file\<close>: \<open>None\<close> for any exception.\<close>

definition process_markdown_file ::
  "solana_env \<Rightarrow> string \<Rightarrow> (exn + solana_document option) \<times> event list" where
  "process_markdown_file env path =
     (case process_markdown_try env path of
        (Inl e, evs) \<Rightarrow> (Inr None, evs)
      | (Inr r, evs) \<Rightarrow> (Inr r, evs))"

text \<open>\<open>ComprehensiveSolanaProcessor.clean_content\<close>.\<close>

definition clean_content :: "string \<Rightarrow> string \<Rightarrow> string" where
  "clean_content s ftype =
     (if ftype \<in> set [''md'', ''mdx''] then
        strip (re_sub_at_start [Star is_space, One is_newline] []
          (re_sub [One is_newline, Star is_space, One is_newline, Star is_space, One is_newline]
             (newline @ newline) 0 s))
      else if ftype \<in> set [''bob'', ''msc''] then strip s
      else if ftype = ''pdf'' then
        ''[PDF Document: '' @ path_name s @ '']'' @ newline @ newline
          @ ''This is a PDF technical specification. Content requires PDF reader to view.''
      else strip s)"

text \<open>The description that replaces the content of a PDF.\<close>

definition pdf_description :: "string \<Rightarrow> string \<Rightarrow> string" where
  "pdf_description ttl rel =
     ''# '' @ ttl @ newline @ newline
     @ ''**File Type:** PDF Technical Specification'' @ newline
     @ ''**Location:** '' @ rel @ newline
     @ ''**Repository:** anza-xyz/agave'' @ newline @ newline
     @ ''This is a PDF document containing technical specifications for Solana''
     @ [CHR 0x27] @ ''s '' @ lower ttl
     @ ''. The PDF contains detailed mathematical proofs, algorithms, and implementation details.''
     @ newline @ newline
     @ ''**To access the full content:** This document requires a PDF reader. The file is located at `''
     @ rel @ ''` in the Agave repository.'' @ newline @ newline
     @ ''**Category:** Technical specification document'' @ newline
     @ ''**Format:** Portable Document Format (PDF)'' @ newline"

text \<open>The \<open>try\<close> block of \<open>ComprehensiveSolanaProcessor.process_documentation_file\<close>.\<close>

definition process_documentation_try ::
  "solana_env \<Rightarrow> string \<Rightarrow> (exn + solana_document option) \<times> event list" where
  "process_documentation_try env path =
     (case relative_to (repo_path env) path of
        Inl e \<Rightarrow> (Inl e, [])
      | Inr rel \<Rightarrow>
          (let file_extension = lower (drop 1 (path_suffix path)) in
           bind_exn
             (if file_extension = ''pdf''
              then bind_exn (read_size (files env) path) (\<lambda>file_size. Inr (Some (path, file_size)))
              else bind_exn (read_text (files env) path) (\<lambda>raw_content.
                     if strip raw_content = [] then Inr None
                     else Inr (Some (clean_content raw_content file_extension, 0))))
             (\<lambda>read.
                case read of
                  None \<Rightarrow> Inr None
                | Some (body, file_size) \<Rightarrow>
                    let ttl = extract_title_from_content env body path file_extension;
                        cat = categorize_document env rel file_extension;
                        meta =
                          [(''source_type'', JStr file_extension),
                           (''file_path'', JStr rel),
                           (''category'', JStr cat),
                           (''file_size'',
                            JNum (real (if file_extension \<noteq> ''pdf'' then length body
                                        else file_size))),
                           (''extracted_at'', JStr (extracted_at env)),
                           (''repository'', JStr ''anza-xyz/agave''),
                           (''file_extension'', JStr file_extension)]
                          @ (if file_extension = ''pdf''
                             then [(''is_pdf'', JBool True), (''pdf_path'', JStr rel)] else []);
                        body' =
                          (if file_extension = ''pdf'' then pdf_description ttl rel else body)
                    in Inr (Some \<lparr>file_path = path, relative_path = rel, title = ttl,
                          doc_content = body', file_type = file_extension, category = cat,
                          doc_metadata = JObj meta\<rparr>)),
           [ReadFile path]))"

text \<open>\<open>ComprehensiveSolanaProcessor.process_documentation_file\<close>.\<close>

definition process_documentation_file ::
  "solana_env \<Rightarrow> string \<Rightarrow> (exn + solana_document option) \<times> event list" where
  "process_documentation_file env path =
     (case process_documentation_try env path of
        (Inl e, evs) \<Rightarrow> (Inr None, evs)
      | (Inr r, evs) \<Rightarrow> (Inr r, evs))"

text \<open>The loop of \<open>process_all_files\<close>: the progress line prints the relative path
  (outside any \<open>try\<close>), then the file is processed and kept when it gave a document.\<close>

fun process_files ::
  "(solana_env \<Rightarrow> string \<Rightarrow> (exn + solana_document option) \<times> event list) \<Rightarrow> solana_env
     \<Rightarrow> string list \<Rightarrow> (exn + solana_document list) \<times> event list" where
  "process_files process env [] = (Inr [], [])"
| "process_files process env (path # paths) =
     (case relative_to (repo_path env) path of
        Inl e \<Rightarrow> (Inl e, [])
      | Inr rel \<Rightarrow>
          (case process env path of
             (Inl e, evs) \<Rightarrow> (Inl e, evs)
           | (Inr doc, evs) \<Rightarrow>
               (case process_files process env paths of
                  (Inl e, evs') \<Rightarrow> (Inl e, evs @ evs')
                | (Inr docs, evs') \<Rightarrow>
                    (Inr ((case doc of None \<Rightarrow> [] | Some d \<Rightarrow> [d]) @ docs), evs @ evs'))))"

text \<open>\<open>process_all_files\<close> of \<open>ingest_solana\<close> and of \<open>ingest_solana_comprehensive\<close>.\<close>

definition process_all_markdown ::
  "solana_env \<Rightarrow> (exn + solana_document list) \<times> event list" where
  "process_all_markdown env =
     (case discover_markdown_files (repo_path env) (files env) of
        Inl e \<Rightarrow> (Inl e, [])
      | Inr md_files \<Rightarrow> process_files process_markdown_file env md_files)"

definition process_all_files ::
  "solana_env \<Rightarrow> (exn + solana_document list) \<times> event list" where
  "process_all_files env =
     (case discover_documentation_files (repo_path env) (files env) of
        Inl e \<Rightarrow> (Inl e, [])
      | Inr doc_files \<Rightarrow> process_files process_documentation_file env doc_files)"

text \<open>The embedding loop of the Solana scripts.\<close>

fun embed_documents ::
  "(string \<Rightarrow> exn + embedding) \<Rightarrow> solana_document list \<Rightarrow> (exn + embedding list) \<times> event list" where
  "embed_documents api [] = (Inr [], [])"
| "embed_documents api (doc # docs) =
     (case generate_embedding api (doc_content doc) of
        (Inl e, evs) \<Rightarrow> (Inl e, evs)
      | (Inr emb, evs) \<Rightarrow>
          (case embed_documents api docs of
             (Inl e, evs') \<Rightarrow> (Inl e, evs @ evs')
           | (Inr embs, evs') \<Rightarrow> (Inr (emb # embs), evs @ evs')))"

text \<open>\<open>main\<close> of \<open>ingest_solana_comprehensive\<close>, after the checks of the environment
  variables and of the repository directory.\<close>

definition run_solana ::
  "solana_env \<Rightarrow> (string \<Rightarrow> exn + embedding) \<Rightarrow> db_env \<Rightarrow> (json \<Rightarrow> string) \<Rightarrow> db
     \<Rightarrow> (exn + unit) \<times> db \<times> event list" where
  "run_solana env api denv json_dumps conn =
     (case process_all_files env of
        (Inl e, evs1) \<Rightarrow> (Inl e, conn, evs1)
      | (Inr docs, evs1) \<Rightarrow>
          if docs = [] then (Inr (), conn, evs1)
          else
            (case embed_documents api docs of
               (Inl e, evs2) \<Rightarrow> (Inl e, conn, evs1 @ evs2)
             | (Inr embeddings, evs2) \<Rightarrow>
                 (let conn' = store_documents denv json_dumps conn docs embeddings
                  in (Inr (), conn', evs1 @ evs2 @ upsert_events conn conn'))))"

definition main_solana ::
  "string option \<Rightarrow> string option \<Rightarrow> bool \<Rightarrow> solana_env \<Rightarrow> (string \<Rightarrow> exn + embedding) \<Rightarrow> db_env
     \<Rightarrow> (json \<Rightarrow> string) \<Rightarrow> db \<Rightarrow> (exn + unit) \<times> db \<times> event list" where
  "main_solana database_url openai_api_key repo_exists env api denv json_dumps conn =
     (if database_url = None \<or> database_url = Some [] then (Inl (SystemExit 1), conn, [])
      else if openai_api_key = None \<or> openai_api_key = Some [] then (Inl (SystemExit 1), conn, [])
      else if \<not> repo_exists then (Inl (SystemExit 1), conn, [])
      else run_solana (env\<lparr>repo_path := ''solana-agave-full''\<rparr>) api denv json_dumps conn)"

section \<open>Reading a trace\<close>

fun is_http_get :: "event \<Rightarrow> bool" where
  "is_http_get (HttpGet u) = True"
| "is_http_get e = False"

text \<open>The events of the three phases of a run: fetching (requests, file reads and the
  pauses between requests), embedding (requests to the embedding API and the pauses
  after them), and storing.\<close>

fun is_fetch_event :: "event \<Rightarrow> bool" where
  "is_fetch_event (HttpGet u) = True"
| "is_fetch_event (ReadFile p) = True"
| "is_fetch_event (Sleep n) = True"
| "is_fetch_event e = False"

fun is_embedding_event :: "event \<Rightarrow> bool" where
  "is_embedding_event (EmbeddingRequest t) = True"
| "is_embedding_event (Sleep n) = True"
| "is_embedding_event e = False"

fun is_upsert_event :: "event \<Rightarrow> bool" where
  "is_upsert_event (Upsert dt sn dp) = True"
| "is_upsert_event e = False"

text \<open>Event \<open>a\<close> happens, and event \<open>b\<close> happens after the first \<open>a\<close>.\<close>

definition precedes :: "event \<Rightarrow> event \<Rightarrow> event list \<Rightarrow> bool" where
  "precedes a b evs =
     (case dropWhile (\<lambda>e. e \<noteq> a) evs of [] \<Rightarrow> False | e # rest \<Rightarrow> b \<in> set rest)"

section \<open>A batch of upserts\<close>

text \<open>The values one \<open>INSERT\<close> statement sends: the key and the payload columns.\<close>

type_synonym upsert_values = "(string \<times> string \<times> string) \<times> (string \<times> string \<times> embedding \<times> nat)"

fun upsert_values :: "db_env \<Rightarrow> upsert_values \<Rightarrow> db \<Rightarrow> db" where
  "upsert_values env ((dt, sn, dp), (c, m, e, tc)) conn = upsert_document env dt sn dp c m e tc conn"

definition upsert_all :: "db_env \<Rightarrow> upsert_values list \<Rightarrow> db \<Rightarrow> db" where
  "upsert_all env vals conn = fold (upsert_values env) vals conn"

text \<open>The effect of one statement on a row that is already there, with \<open>updated_at\<close>
  left out of the picture.\<close>

fun settle :: "upsert_values \<Rightarrow> row \<Rightarrow> row" where
  "settle (k, (c, m, e, tc)) r = (if row_key r = k then do_update c m e tc 0 r else r)"

text \<open>The values the store operations of \<open>ingest_birdeye_simple\<close> and of the Solana
  scripts send for one pair of the loop.\<close>

definition simple_values :: "(json \<Rightarrow> string) \<Rightarrow> simple_endpoint \<times> embedding \<Rightarrow> upsert_values" where
  "simple_values json_dumps = (\<lambda>(endpoint, emb).
     ((''birdeye'', ''BirdEye API'', se_method endpoint @ '' '' @ se_path endpoint),
      (se_content endpoint, json_dumps (se_metadata endpoint), emb,
       length (se_content endpoint) div 4)))"

definition solana_values :: "(json \<Rightarrow> string) \<Rightarrow> solana_document \<times> embedding \<Rightarrow> upsert_values" where
  "solana_values json_dumps = (\<lambda>(doc, emb).
     ((''solana'', ''Solana Agave'', relative_path doc),
      (doc_content doc, json_dumps (doc_metadata doc), emb, length (doc_content doc) div 4)))"

section \<open>Patterns that match white space only\<close>

text \<open>Every character an item can match is white space.\<close>

fun space_item :: "rx_item \<Rightarrow> bool" where
  "space_item (One p) = (\<forall>c. p c \<longrightarrow> is_space c)"
| "space_item (Star p) = (\<forall>c. p c \<longrightarrow> is_space c)"

text \<open>The characters of a text that are not white space, in order.\<close>

definition ink :: "string \<Rightarrow> string" where
  "ink s = filter (\<lambda>c. \<not> is_space c) s"

section \<open>Example data\<close>

text \<open>A database server whose clock shows the statement number plus 100, a
  \<open>json.dumps\<close> that only renders strings, and a table with one row of each script.\<close>

definition example_env :: db_env where
  "example_env = \<lparr>current_timestamp = (\<lambda>n. 100 + n), default_created_at = (\<lambda>n. 100 + n),
     default_updated_at = (\<lambda>n. 100 + n), default_total_docs = (\<lambda>n. 0),
     default_total_tokens = (\<lambda>n. 0)\<rparr>"

definition example_dumps :: "json \<Rightarrow> string" where
  "example_dumps j = (case j of JStr s \<Rightarrow> s | _ \<Rightarrow> ''{}'')"

definition example_rows :: "row list" where
  "example_rows =
     [\<lparr>doc_type = ''birdeye'', source_name = ''birdeye-api'', doc_path = ''get_defi_price'',
       content = ''old price'', metadata = ''{}'', embedding = [1], token_count = 2,
       created_at = 1, updated_at = 1\<rparr>,
      \<lparr>doc_type = ''birdeye'', source_name = ''BirdEye API'', doc_path = ''GET /defi/price'',
       content = ''old'', metadata = ''{}'', embedding = [2], token_count = 0,
       created_at = 2, updated_at = 2\<rparr>,
      \<lparr>doc_type = ''solana'', source_name = ''Solana Agave'', doc_path = ''docs/a.md'',
       content = ''# A'', metadata = ''{}'', embedding = [3], token_count = 0,
       created_at = 3, updated_at = 3\<rparr>]"

definition example_db :: db where
  "example_db = \<lparr>documents = example_rows, document_sources = [], statements = 3,
     journal = [], vector_codec = False\<rparr>"

definition example_endpoint :: endpoint where
  "example_endpoint = \<lparr>ep_url = ''https://docs.birdeye.so/reference/get-defi-price'',
     ep_title = JStr ''Price'', ep_method = ''GET'', ep_path = JStr ''/defi/price'',
     ep_content = ''# Price now'', ep_metadata = JStr ''m1''\<rparr>"

definition example_simple_endpoint :: simple_endpoint where
  "example_simple_endpoint = \<lparr>se_path = ''/defi/price'', se_method = ''GET'',
     se_title = JStr ''Price'', se_description = JStr '''', se_content = ''# Price spec'',
     se_metadata = JStr ''m2''\<rparr>"

definition example_document :: solana_document where
  "example_document = \<lparr>file_path = ''solana-agave/docs/a.md'', relative_path = ''docs/a.md'',
     title = ''A'', doc_content = ''# A again'', file_type = ''md'', category = ''module-docs'',
     doc_metadata = JStr ''m3''\<rparr>"

definition example_new_document :: solana_document where
  "example_new_document = \<lparr>file_path = ''solana-agave/README.md'', relative_path = ''README.md'',
     title = ''Agave'', doc_content = ''# Agave'', file_type = ''md'', category = ''module-readme'',
     doc_metadata = JStr ''m4''\<rparr>"

section \<open>Example runs\<close>

text \<open>\<open>str.upper\<close> and \<open>str.title\<close> as they are on strings of ASCII characters: a small
  letter moves down by 32; in a title a letter after a letter is lower-cased and any
  other letter upper-cased.\<close>

definition ascii_upper_char :: "char \<Rightarrow> char" where
  "ascii_upper_char c =
     (let n = (of_char c :: nat) in if 97 \<le> n \<and> n \<le> 122 then char_of (n - 32) else c)"

definition ascii_upper :: "string \<Rightarrow> string" where
  "ascii_upper s = map ascii_upper_char s"

definition ascii_alpha :: "char \<Rightarrow> bool" where
  "ascii_alpha c = (let n = (of_char c :: nat) in (65 \<le> n \<and> n \<le> 90) \<or> (97 \<le> n \<and> n \<le> 122))"

fun ascii_title_from :: "bool \<Rightarrow> string \<Rightarrow> string" where
  "ascii_title_from prev [] = []"
| "ascii_title_from prev (c # cs) =
     (if ascii_alpha c
      then (if prev then lower_char c else ascii_upper_char c) # ascii_title_from True cs
      else c # ascii_title_from False cs)"

definition ascii_title :: "string \<Rightarrow> string" where
  "ascii_title s = ascii_title_from False s"

definition example_py :: py_env where
  "example_py = \<lparr>py_str = (\<lambda>j. ''?''), json_dumps_indent = (\<lambda>j. ''{}''),
     utcnow_isoformat = ''2025-01-01T00:00:00'', str_upper = ascii_upper,
     str_title = ascii_title\<rparr>"

text \<open>A documentation site that answers every request with an endpoint whose path is
  the requested URL.\<close>

definition echo_http :: http where
  "echo_http u = Inr (200, Some (JObj [(''data'', JObj
     [(''title'', JStr ''Echo''),
      (''api'', JObj [(''method'', JStr ''get''), (''path'', JStr u)])])]))"

text \<open>A documentation site that knows one endpoint, has lost a second, answers a
  third without a \<open>data\<close> section, and cannot be reached for anything else.\<close>

definition example_http :: http where
  "example_http u =
     (if u = api_url_of ''https://docs.birdeye.so/reference/get-defi-price''
      then Inr (200, Some (JObj [(''data'', JObj
             [(''title'', JStr ''Price''),
              (''api'', JObj [(''method'', JStr ''get''), (''path'', JStr ''/defi/price'')])])]))
      else if u = api_url_of ''https://docs.birdeye.so/reference/gone''
      then Inr (404, None)
      else if u = api_url_of ''https://docs.birdeye.so/reference/empty''
      then Inr (200, Some (JObj [(''error'', JStr ''no such page'')]))
      else Inl ConnectionError)"

definition example_post :: embed_post where
  "example_post t = Inr (200, Some [real (length t)])"

definition example_api :: "string \<Rightarrow> exn + embedding" where
  "example_api t = Inr [real (length t)]"

definition empty_db :: db where
  "empty_db = \<lparr>documents = [], document_sources = [], statements = 0, journal = [],
     vector_codec = False\<rparr>"

text \<open>A checkout with two markdown files (one of them blank), a diagram, a PDF, a
  dependency's readme and a notice.\<close>

definition example_files :: filesystem where
  "example_files =
     \<lparr>entries = [''README.md'', ''docs/blank.md'', ''docs/flow.bob'', ''zk-docs/proof.pdf'',
                 ''web/node_modules/x/README.md'', ''NOTICE.md'', ''src/main.rs''],
      read_text = (\<lambda>p.
        if p = ''solana-agave-full/README.md'' \<or> p = ''solana-agave/README.md''
          then Inr (newline @ ''# Agave'' @ newline @ newline @ newline @ ''A validator.'' @ newline)
        else if p = ''solana-agave-full/docs/blank.md'' \<or> p = ''solana-agave/docs/blank.md''
          then Inr ('' '' @ newline @ newline)
        else if p = ''solana-agave-full/docs/flow.bob'' then Inr (''+--+'' @ newline)
        else Inl OSError),
      read_size = (\<lambda>p. if p = ''solana-agave-full/zk-docs/proof.pdf'' then Inr 1024 else Inl OSError)\<rparr>"

text \<open>A checkout whose only documentation file is named \<open>.md\<close>.\<close>

definition dotfile_files :: filesystem where
  "dotfile_files =
     \<lparr>entries = [''docs/.md''],
      read_text = (\<lambda>p. if p = ''solana-agave-full/docs/.md'' then Inr ''# Notes'' else Inl OSError),
      read_size = (\<lambda>p. Inl OSError)\<rparr>"

definition example_solana_env :: solana_env where
  "example_solana_env =
     \<lparr>repo_path = ''solana-agave'', files = example_files,
      extract_title_from_content = (\<lambda>body path ftype. path_name path),
      categorize_document = (\<lambda>rel ftype. ''docs''),
      extracted_at = ''2025-01-01T00:00:00''\<rparr>"


section \<open>Truncation\<close>

lemma truncate_text_short: "length text \<le> MAX_CHARS \<Longrightarrow> truncate_text text = text"
  by (simp add: truncate_text_def)

lemma truncate_text_long:
  "MAX_CHARS < length text \<Longrightarrow> truncate_text text = take MAX_CHARS text @ ''... [TRUNCATED]''"
  by (simp add: truncate_text_def)

lemma truncate_text_length_long:
  "MAX_CHARS < length text \<Longrightarrow> length (truncate_text text) = MAX_CHARS + 15"
  by (simp add: truncate_text_def)

lemma truncate_text_length: "length (truncate_text text) \<le> MAX_CHARS + 15"
  by (simp add: truncate_text_def)

text \<open>
  C8.  Truncating twice gives the same string as truncating once: a text of at most
  30,000 characters is kept both times, and a longer one becomes its first 30,000
  characters followed by the marker, whose first 30,000 characters are again those of
  the text.
\<close>

theorem truncate_text_idempotent: "truncate_text (truncate_text text) = truncate_text text"
proof (cases "MAX_CHARS < length text")
  case True
  then have "truncate_text text = take MAX_CHARS text @ ''... [TRUNCATED]''"
    by (rule truncate_text_long)
  moreover from True have "MAX_CHARS < length (take MAX_CHARS text @ ''... [TRUNCATED]'')"
    by simp
  moreover from True
  have "take MAX_CHARS (take MAX_CHARS text @ ''... [TRUNCATED]'') = take MAX_CHARS text"
    by simp
  ultimately show ?thesis
    by (simp add: truncate_text_long)
next
  case False
  then show ?thesis
    by (simp add: truncate_text_short)
qed

text \<open>
  C4 (the code at a text of 30,001 characters).  The string submitted to the embedding
  API is the first 30,000 characters followed by the 15 characters of
  \<open>... [TRUNCATED]\<close>: 30,015 characters, above \<open>MAX_CHARS\<close>.
\<close>

theorem generate_embedding_over_budget:
  "snd (generate_embedding api (replicate 30001 CHR ''a''))
     = [EmbeddingRequest (replicate 30000 CHR ''a'' @ ''... [TRUNCATED]'')]
   \<and> snd (generate_embedding_http post (replicate 30001 CHR ''a''))
     = [EmbeddingRequest (replicate 30000 CHR ''a'' @ ''... [TRUNCATED]'')]
   \<and> length (replicate 30000 CHR ''a'' @ ''... [TRUNCATED]'') = 30015
   \<and> \<not> length (truncate_text (replicate 30001 CHR ''a'')) \<le> MAX_CHARS"
  by (simp add: generate_embedding_def generate_embedding_http_def truncate_text_def
      MAX_CHARS_def Let_def)

section \<open>Keys under an upsert\<close>

lemma row_key_do_update: "row_key (do_update c m e tc t r) = row_key r"
  by (simp add: row_key_def do_update_def)

lemma keys_map_do_update:
  "map row_key (map (\<lambda>r. if row_key r = k then do_update c m e tc t r else r) rows)
     = map row_key rows"
  by (induction rows) (simp_all add: row_key_do_update)

lemma keys_upsert_document:
  "map row_key (documents (upsert_document env dt sn dp c m e tc conn)) =
     (if (dt, sn, dp) \<in> set (map row_key (documents conn))
      then map row_key (documents conn)
      else map row_key (documents conn) @ [(dt, sn, dp)])"
  using keys_map_do_update [of "(dt, sn, dp)" c m e tc _ "documents conn"]
  by (simp add: upsert_document_def Let_def row_key_def)

lemma unique_keys_upsert_document:
  "unique_keys (documents conn) \<Longrightarrow>
   unique_keys (documents (upsert_document env dt sn dp c m e tc conn))"
  unfolding unique_keys_def keys_upsert_document by auto

lemma upsert_document_at:
  assumes "unique_keys (documents conn)" and "i < length (documents conn)"
    and "row_key (documents conn ! i) = (dt, sn, dp)"
  shows "documents (upsert_document env dt sn dp c m e tc conn) =
         (documents conn)[i := do_update c m e tc (current_timestamp env (statements conn)) (documents conn ! i)]"
proof -
  let ?rows = "documents conn"
  let ?f = "\<lambda>r. if row_key r = (dt, sn, dp)
                 then do_update c m e tc (current_timestamp env (statements conn)) r else r"
  from assms(2,3) have mem: "(dt, sn, dp) \<in> set (map row_key ?rows)"
    by (metis length_map nth_map nth_mem)
  have "map ?f ?rows = ?rows[i := ?f (?rows ! i)]"
  proof (rule nth_equalityI)
    show "length (map ?f ?rows) = length (?rows[i := ?f (?rows ! i)])" by simp
  next
    fix j assume j: "j < length (map ?f ?rows)"
    show "map ?f ?rows ! j = ?rows[i := ?f (?rows ! i)] ! j"
    proof (cases "j = i")
      case True with assms(2) show ?thesis by simp
    next
      case False
      with assms j have "row_key (?rows ! j) \<noteq> row_key (?rows ! i)"
        unfolding unique_keys_def
        by (metis (no_types, lifting) distinct_conv_nth length_map nth_map)
      with j False assms(3) show ?thesis by simp
    qed
  qed
  with mem assms(3) show ?thesis
    by (simp add: upsert_document_def Let_def)
qed

lemma keys_upsert_values:
  "map row_key (documents (upsert_values env v conn)) =
     (if fst v \<in> set (map row_key (documents conn))
      then map row_key (documents conn)
      else map row_key (documents conn) @ [fst v])"
proof -
  obtain dt sn dp c m e tc where "v = ((dt, sn, dp), (c, m, e, tc))"
    by (metis prod.exhaust)
  then show ?thesis by (simp add: keys_upsert_document)
qed

lemma unique_keys_upsert_all:
  "unique_keys (documents conn) \<Longrightarrow> unique_keys (documents (upsert_all env vals conn))"
proof (induction vals arbitrary: conn)
  case Nil
  then show ?case by (simp add: upsert_all_def)
next
  case (Cons v vals)
  have "unique_keys (documents (upsert_values env v conn))"
    using Cons.prems unfolding unique_keys_def keys_upsert_values by auto
  from Cons.IH [OF this] show ?case by (simp add: upsert_all_def)
qed

lemma key_set_upsert_all:
  "set (map row_key (documents (upsert_all env vals conn)))
     = set (map row_key (documents conn)) \<union> fst ` set vals"
proof (induction vals arbitrary: conn)
  case Nil
  then show ?case by (simp add: upsert_all_def)
next
  case (Cons v vals)
  have "set (map row_key (documents (upsert_values env v conn)))
          = insert (fst v) (set (map row_key (documents conn)))"
    unfolding keys_upsert_values by auto
  with Cons.IH [of "upsert_values env v conn"] show ?case
    by (simp add: upsert_all_def)
qed

section \<open>The stores as batches\<close>

lemma vector_codec_upsert_document:
  "vector_codec (upsert_document env dt sn dp c m e tc conn) = vector_codec conn"
  by (simp add: upsert_document_def Let_def)

lemma upsert_document_codec:
  "upsert_document env dt sn dp c m e tc (conn\<lparr>vector_codec := b\<rparr>)
     = (upsert_document env dt sn dp c m e tc conn)\<lparr>vector_codec := b\<rparr>"
  by (simp add: upsert_document_def Let_def)

lemma upsert_values_codec:
  "upsert_values env v (conn\<lparr>vector_codec := b\<rparr>) = (upsert_values env v conn)\<lparr>vector_codec := b\<rparr>"
proof -
  obtain dt sn dp c m e tc where "v = ((dt, sn, dp), (c, m, e, tc))"
    by (metis prod.exhaust)
  then show ?thesis by (simp add: upsert_document_codec)
qed

lemma upsert_all_codec:
  "upsert_all env vals (conn\<lparr>vector_codec := b\<rparr>) = (upsert_all env vals conn)\<lparr>vector_codec := b\<rparr>"
proof (induction vals arbitrary: conn)
  case Nil
  then show ?case by (simp add: upsert_all_def)
next
  case (Cons v vals)
  from Cons.IH [of "upsert_values env v conn"] show ?case
    by (simp add: upsert_all_def upsert_values_codec)
qed

text \<open>Without the codec the loop of \<open>ingest_birdeye\<close> executes no statement: it ends at
  its first call of \<open>store_document\<close>.\<close>

lemma store_document_no_codec:
  "\<not> vector_codec conn \<Longrightarrow> \<exists>e. store_document env jd conn ep emb = Inl e"
  by (cases "ep_path ep") (simp_all add: store_document_def execute_upsert_def)

lemma store_each_no_codec:
  "\<not> vector_codec conn \<Longrightarrow> snd (store_each env jd conn pairs) = conn"
proof (cases pairs)
  case Nil
  then show ?thesis by simp
next
  case (Cons pr rest)
  assume n: "\<not> vector_codec conn"
  obtain endpoint emb where pr: "pr = (endpoint, emb)" by (cases pr)
  from store_document_no_codec [OF n, of env jd endpoint emb]
  obtain e where "store_document env jd conn endpoint emb = Inl e" ..
  with Cons pr show ?thesis by simp
qed

lemma documents_ensure_document_source:
  "documents (ensure_document_source env config conn) = documents conn"
  by (simp add: ensure_document_source_def Let_def)

lemma journal_ensure_document_source:
  "journal (ensure_document_source env config conn) = journal conn"
  by (simp add: ensure_document_source_def Let_def)

lemma vector_codec_ensure_document_source:
  "vector_codec (ensure_document_source env config conn) = vector_codec conn"
  by (simp add: ensure_document_source_def Let_def)

lemma documents_update_source_stats: "documents (update_source_stats conn) = documents conn"
  by (simp add: update_source_stats_def Let_def)

lemma journal_update_source_stats: "journal (update_source_stats conn) = journal conn"
  by (simp add: update_source_stats_def Let_def)

lemma snd_store_endpoints:
  "snd (store_endpoints env jd utcnow conn eps embs) =
     (let conn1 = ensure_document_source env
            (jd (JObj [(''base_url'', JStr ''https://docs.birdeye.so''),
                       (''extraction_method'', JStr ''data-initial-props scraping''),
                       (''last_ingestion'', JStr utcnow)])) (connect conn)
      in case fst (store_each env jd conn1 (zip eps embs)) of
           Inl e \<Rightarrow> close conn1
         | Inr u \<Rightarrow> close (update_source_stats conn1))"
proof -
  let ?conn1 = "ensure_document_source env
            (jd (JObj [(''base_url'', JStr ''https://docs.birdeye.so''),
                       (''extraction_method'', JStr ''data-initial-props scraping''),
                       (''last_ingestion'', JStr utcnow)])) (connect conn)"
  have "\<not> vector_codec ?conn1"
    by (simp add: vector_codec_ensure_document_source connect_def)
  from store_each_no_codec [OF this, of env jd "zip eps embs"]
  show ?thesis
    by (cases "store_each env jd ?conn1 (zip eps embs)")
       (auto simp: store_endpoints_def Let_def split: sum.splits)
qed

lemma documents_store_endpoints:
  "documents (snd (store_endpoints env jd utcnow conn eps embs)) = documents conn"
  by (simp add: snd_store_endpoints Let_def close_def connect_def
      documents_ensure_document_source documents_update_source_stats split: sum.splits)

lemma journal_store_endpoints:
  "journal (snd (store_endpoints env jd utcnow conn eps embs)) = journal conn"
  by (simp add: snd_store_endpoints Let_def close_def connect_def
      journal_ensure_document_source journal_update_source_stats split: sum.splits)

text \<open>With the codec the loops of the other scripts execute every statement.\<close>

lemma store_each_simple_upsert_all:
  "vector_codec conn \<Longrightarrow>
   store_each_simple env jd conn pairs = (Inr (), upsert_all env (map (simple_values jd) pairs) conn)"
proof (induction pairs arbitrary: conn)
  case Nil
  then show ?case by (simp add: upsert_all_def)
next
  case (Cons pr pairs)
  obtain endpoint emb where pr: "pr = (endpoint, emb)" by (cases pr)
  let ?c = "upsert_values env (simple_values jd (endpoint, emb)) conn"
  from Cons.prems have "vector_codec ?c"
    by (simp add: simple_values_def vector_codec_upsert_document)
  from Cons.IH [OF this] Cons.prems show ?case
    by (simp add: pr execute_upsert_def upsert_all_def simple_values_def Let_def)
qed

lemma store_each_document_upsert_all:
  "vector_codec conn \<Longrightarrow>
   store_each_document env jd conn pairs = (Inr (), upsert_all env (map (solana_values jd) pairs) conn)"
proof (induction pairs arbitrary: conn)
  case Nil
  then show ?case by (simp add: upsert_all_def)
next
  case (Cons pr pairs)
  obtain doc emb where pr: "pr = (doc, emb)" by (cases pr)
  let ?c = "upsert_values env (solana_values jd (doc, emb)) conn"
  from Cons.prems have "vector_codec ?c"
    by (simp add: solana_values_def vector_codec_upsert_document)
  from Cons.IH [OF this] Cons.prems show ?case
    by (simp add: pr execute_upsert_def upsert_all_def solana_values_def Let_def)
qed

lemma store_endpoints_simple_upsert_all:
  "store_endpoints_simple env jd conn eps embs
     = (upsert_all env (map (simple_values jd) (zip eps embs)) conn)\<lparr>vector_codec := False\<rparr>"
proof -
  have "vector_codec (register_vector (connect conn))"
    by (simp add: register_vector_def)
  from store_each_simple_upsert_all [OF this, of env jd "zip eps embs"]
  show ?thesis
    by (simp add: store_endpoints_simple_def Let_def close_def register_vector_def connect_def
        upsert_all_codec)
qed

lemma store_documents_upsert_all:
  "store_documents env jd conn docs embs
     = (upsert_all env (map (solana_values jd) (zip docs embs)) conn)\<lparr>vector_codec := False\<rparr>"
proof -
  have "vector_codec (register_vector (connect conn))"
    by (simp add: register_vector_def)
  from store_each_document_upsert_all [OF this, of env jd "zip docs embs"]
  show ?thesis
    by (simp add: store_documents_def Let_def close_def register_vector_def connect_def
        upsert_all_codec)
qed

lemma documents_store_endpoints_simple:
  "documents (store_endpoints_simple env jd conn eps embs)
     = documents (upsert_all env (map (simple_values jd) (zip eps embs)) conn)"
  by (simp add: store_endpoints_simple_upsert_all)

lemma documents_store_documents:
  "documents (store_documents env jd conn docs embs)
     = documents (upsert_all env (map (solana_values jd) (zip docs embs)) conn)"
  by (simp add: store_documents_upsert_all)

section \<open>Running a batch twice\<close>

lemma erase_do_update:
  "erase_updated_at (do_update c m e tc t r) = do_update c m e tc 0 (erase_updated_at r)"
  by (simp add: erase_updated_at_def do_update_def)

lemma row_key_erase: "row_key (erase_updated_at r) = row_key r"
  by (simp add: erase_updated_at_def row_key_def)

lemma do_update_do_update:
  "do_update c m e tc t (do_update c' m' e' tc' t' r) = do_update c m e tc t r"
  by (simp add: do_update_def)

lemma row_key_settle: "row_key (settle v r) = row_key r"
proof -
  obtain k c m e tc where "v = (k, (c, m, e, tc))"
    by (metis prod.exhaust)
  then show ?thesis by (simp add: row_key_do_update)
qed

lemma row_key_fold_settle: "row_key (fold settle vals r) = row_key r"
  by (induction vals arbitrary: r) (simp_all add: row_key_settle)

lemma do_update_settle: "do_update c m e tc t (settle v r) = do_update c m e tc t r"
proof -
  obtain k c' m' e' tc' where "v = (k, (c', m', e', tc'))"
    by (metis prod.exhaust)
  then show ?thesis by (simp add: do_update_do_update)
qed

lemma do_update_fold_settle:
  "do_update c m e tc t (fold settle vals r) = do_update c m e tc t r"
  by (induction vals arbitrary: r) (simp_all add: do_update_settle)

lemma settle_other_key: "row_key r \<noteq> fst v \<Longrightarrow> settle v r = r"
proof -
  assume a: "row_key r \<noteq> fst v"
  obtain k c' m' e' tc' where "v = (k, (c', m', e', tc'))"
    by (metis prod.exhaust)
  with a show ?thesis by simp
qed

text \<open>An upsert whose key is in the table acts row by row.\<close>

lemma erase_upsert_values_present:
  assumes "fst v \<in> set (map row_key (documents conn))"
  shows "map erase_updated_at (documents (upsert_values env v conn))
           = map (settle v) (map erase_updated_at (documents conn))"
proof -
  obtain dt sn dp c m e tc where v: "v = ((dt, sn, dp), (c, m, e, tc))"
    by (metis prod.exhaust)
  from assms v have "(dt, sn, dp) \<in> row_key ` set (documents conn)" by simp
  then show ?thesis
    by (simp add: v upsert_document_def Let_def erase_do_update row_key_erase)
qed

lemma erase_upsert_all_present:
  "fst ` set vals \<subseteq> set (map row_key (documents conn)) \<Longrightarrow>
   map erase_updated_at (documents (upsert_all env vals conn))
     = map (fold settle vals) (map erase_updated_at (documents conn))"
proof (induction vals arbitrary: conn)
  case Nil
  then show ?case by (simp add: upsert_all_def)
next
  case (Cons v vals)
  from Cons.prems have v: "fst v \<in> set (map row_key (documents conn))" by simp
  then have keys: "map row_key (documents (upsert_values env v conn)) = map row_key (documents conn)"
    by (simp add: keys_upsert_values)
  with Cons.prems have "fst ` set vals \<subseteq> set (map row_key (documents (upsert_values env v conn)))"
    by simp
  from Cons.IH [OF this] erase_upsert_values_present [OF v, of env]
  show ?case by (simp add: upsert_all_def)
qed

text \<open>After a batch, every row is a fixed point of the batch's updates.\<close>

lemma settled_after_upsert_all:
  "r \<in> set (documents (upsert_all env vals conn)) \<Longrightarrow>
   fold settle vals (erase_updated_at r) = erase_updated_at r"
proof (induction vals arbitrary: r rule: rev_induct)
  case Nil
  then show ?case by simp
next
  case (snoc v vals)
  obtain dt sn dp c m e tc where v: "v = ((dt, sn, dp), (c, m, e, tc))"
    by (metis prod.exhaust)
  let ?d = "upsert_all env vals conn"
  let ?k = "(dt, sn, dp)"
  let ?t = "current_timestamp env (statements ?d)"
  let ?new = "\<lparr>doc_type = dt, source_name = sn, doc_path = dp, content = c, metadata = m,
                 embedding = e, token_count = tc, created_at = default_created_at env (statements ?d),
                 updated_at = default_updated_at env (statements ?d)\<rparr>"
  have step: "fold settle (vals @ [v]) x = settle v (fold settle vals x)" for x
    by simp
  from snoc.prems have "r \<in> set (documents (upsert_document env dt sn dp c m e tc ?d))"
    by (simp add: upsert_all_def v)
  then consider
      (upd) r' where "r' \<in> set (documents ?d)" "row_key r' = ?k" "r = do_update c m e tc ?t r'"
    | (same) "r \<in> set (documents ?d)" "row_key r \<noteq> ?k"
    | (new) "r = ?new"
  proof (cases "?k \<in> set (map row_key (documents ?d))")
    case True
    with \<open>r \<in> set (documents (upsert_document env dt sn dp c m e tc ?d))\<close>
    obtain r' where "r' \<in> set (documents ?d)"
      and "r = (if row_key r' = ?k then do_update c m e tc ?t r' else r')"
      by (auto simp: upsert_document_def Let_def)
    then show ?thesis
      by (cases "row_key r' = ?k") (auto intro: upd same)
  next
    case False
    with \<open>r \<in> set (documents (upsert_document env dt sn dp c m e tc ?d))\<close>
    have "r \<in> set (documents ?d) \<or> r = ?new"
      by (auto simp: upsert_document_def Let_def)
    then show ?thesis
    proof
      assume in_d: "r \<in> set (documents ?d)"
      with False have "row_key r \<noteq> ?k" by (metis image_eqI set_map)
      with in_d show ?thesis by (rule same)
    next
      assume "r = ?new"
      then show ?thesis by (rule new)
    qed
  qed
  then show ?case
  proof cases
    case upd
    have "row_key (fold settle vals (erase_updated_at r)) = ?k"
      by (simp add: row_key_fold_settle row_key_erase upd row_key_do_update)
    then have "settle v (fold settle vals (erase_updated_at r))
                 = do_update c m e tc 0 (fold settle vals (erase_updated_at r))"
      by (simp add: v)
    also have "\<dots> = do_update c m e tc 0 (erase_updated_at r)"
      by (rule do_update_fold_settle)
    also have "\<dots> = erase_updated_at r"
      by (simp add: upd erase_do_update do_update_do_update)
    finally show ?thesis by (simp only: step)
  next
    case same
    from snoc.IH [OF same(1)] same(2) show ?thesis
      by (simp add: v row_key_erase)
  next
    case new
    have "row_key r = ?k"
      by (simp add: new row_key_def)
    then have "row_key (fold settle vals (erase_updated_at r)) = ?k"
      by (simp only: row_key_fold_settle row_key_erase)
    then have "settle v (fold settle vals (erase_updated_at r))
                 = do_update c m e tc 0 (fold settle vals (erase_updated_at r))"
      by (simp add: v)
    also have "\<dots> = do_update c m e tc 0 (erase_updated_at r)"
      by (rule do_update_fold_settle)
    also have "\<dots> = erase_updated_at r"
      by (simp add: new erase_updated_at_def do_update_def)
    finally show ?thesis by (simp only: step)
  qed
qed

text \<open>Running the batch again, from any later state of the database that holds the
  same rows, changes nothing but \<open>updated_at\<close>.\<close>

lemma upsert_all_twice:
  assumes "documents conn' = documents (upsert_all env vals conn)"
  shows "same_upto_updated_at (documents (upsert_all env vals conn')) (documents conn')"
proof -
  have "fst ` set vals \<subseteq> set (map row_key (documents conn'))"
    unfolding assms key_set_upsert_all by simp
  then have "map erase_updated_at (documents (upsert_all env vals conn'))
               = map (fold settle vals) (map erase_updated_at (documents conn'))"
    by (rule erase_upsert_all_present)
  also have "\<dots> = map erase_updated_at (documents conn')"
    unfolding assms by (simp add: settled_after_upsert_all)
  finally show ?thesis by (simp add: same_upto_updated_at_def)
qed

section \<open>The composite key stays unique\<close>

lemma unique_keys_run_store:
  "unique_keys (documents conn) \<Longrightarrow> unique_keys (documents (run_store env jd op conn))"
proof (cases op)
  case (BirdeyeStore utcnow eps embs)
  assume "unique_keys (documents conn)"
  then show ?thesis
    by (simp add: BirdeyeStore documents_store_endpoints)
next
  case (SimpleStore eps embs)
  assume "unique_keys (documents conn)"
  then show ?thesis
    by (simp add: SimpleStore documents_store_endpoints_simple unique_keys_upsert_all)
next
  case (SolanaStore docs embs)
  assume "unique_keys (documents conn)"
  then show ?thesis
    by (simp add: SolanaStore documents_store_documents unique_keys_upsert_all)
qed

lemma unique_keys_run_stores:
  "unique_keys (documents conn) \<Longrightarrow> unique_keys (documents (run_stores env jd ops conn))"
  unfolding run_stores_def
  by (induction ops arbitrary: conn) (simp_all add: unique_keys_run_store)

lemma unique_keys_no_duplicates: "unique_keys rows \<Longrightarrow> duplicates rows = []"
proof -
  assume "unique_keys rows"
  then have "distinct (map row_key rows)" by (simp add: unique_keys_def)
  then have "count_list (map row_key rows) k \<le> 1" for k
    by (induction rows) (auto simp: count_list_0_iff)
  then have "\<not> 1 < count_list (map row_key rows) k" for k
    by (simp add: not_less)
  then show ?thesis
    by (simp add: duplicates_def Let_def filter_empty_conv)
qed

text \<open>What the stores of the scripts that register the codec do with one document whose
  key is the key of row \<open>i\<close>.\<close>

lemma store_documents_at:
  assumes "unique_keys (documents conn)" and "i < length (documents conn)"
    and "row_key (documents conn ! i) = (''solana'', ''Solana Agave'', relative_path doc)"
  shows "documents (store_documents env jd conn [doc] [emb]) =
           (documents conn)[i := (documents conn ! i)
              \<lparr>content := doc_content doc, metadata := jd (doc_metadata doc),
               embedding := emb, token_count := length (doc_content doc) div 4,
               updated_at := current_timestamp env (statements conn)\<rparr>]"
  using upsert_document_at [OF assms, of env]
  by (simp add: documents_store_documents upsert_all_def solana_values_def do_update_def)

lemma store_endpoints_simple_at:
  assumes "unique_keys (documents conn)" and "i < length (documents conn)"
    and "row_key (documents conn ! i)
           = (''birdeye'', ''BirdEye API'', se_method sep @ '' '' @ se_path sep)"
  shows "documents (store_endpoints_simple env jd conn [sep] [emb]) =
           (documents conn)[i := (documents conn ! i)
              \<lparr>content := se_content sep, metadata := jd (se_metadata sep),
               embedding := emb, token_count := length (se_content sep) div 4,
               updated_at := current_timestamp env (statements conn)\<rparr>]"
  using upsert_document_at [OF assms, of env]
  by (simp add: documents_store_endpoints_simple upsert_all_def simple_values_def do_update_def)

text \<open>
  C2.  From a table in which no two rows share (doc\_type, source\_name, doc\_path),
  every sequence of store operations of the ingestion scripts leads to a table in
  which still no two rows share the key, so that the duplicate check of the validation
  script finds nothing.  An \<open>INSERT\<close> whose key is the key of row \<open>i\<close> of the table
  updates that row and adds none: the table after the statement is the table before
  it with row \<open>i\<close> replaced by itself with content, metadata, embedding and
  token\_count set to the values sent and updated\_at to \<open>CURRENT_TIMESTAMP\<close>; in
  particular the list of keys is the same.  This is so for the statement itself, and
  for \<open>store_documents\<close> of the Solana scripts and \<open>store_endpoints\<close> of
  \<open>ingest_birdeye_simple\<close> storing one document with such a key.
\<close>

theorem unique_keys_invariant:
  assumes "unique_keys (documents conn)"
  shows "unique_keys (documents (run_stores env json_dumps ops conn))
       \<and> duplicates (documents (run_stores env json_dumps ops conn)) = []
       \<and> ((dt, sn, dp) \<in> set (map row_key (documents conn)) \<longrightarrow>
            map row_key (documents (upsert_document env dt sn dp c m e tc conn))
              = map row_key (documents conn))
       \<and> (i < length (documents conn) \<and> row_key (documents conn ! i) = (dt, sn, dp) \<longrightarrow>
            documents (upsert_document env dt sn dp c m e tc conn)
              = (documents conn)[i := (documents conn ! i)
                   \<lparr>content := c, metadata := m, embedding := e, token_count := tc,
                    updated_at := current_timestamp env (statements conn)\<rparr>])
       \<and> (i < length (documents conn)
            \<and> row_key (documents conn ! i)
                = (''solana'', ''Solana Agave'', relative_path doc) \<longrightarrow>
            documents (store_documents env json_dumps conn [doc] [emb])
              = (documents conn)[i := (documents conn ! i)
                   \<lparr>content := doc_content doc, metadata := json_dumps (doc_metadata doc),
                    embedding := emb, token_count := length (doc_content doc) div 4,
                    updated_at := current_timestamp env (statements conn)\<rparr>])
       \<and> (i < length (documents conn)
            \<and> row_key (documents conn ! i)
                = (''birdeye'', ''BirdEye API'', se_method sep @ '' '' @ se_path sep) \<longrightarrow>
            documents (store_endpoints_simple env json_dumps conn [sep] [emb])
              = (documents conn)[i := (documents conn ! i)
                   \<lparr>content := se_content sep, metadata := json_dumps (se_metadata sep),
                    embedding := emb, token_count := length (se_content sep) div 4,
                    updated_at := current_timestamp env (statements conn)\<rparr>])"
proof (intro conjI impI)
  show "unique_keys (documents (run_stores env json_dumps ops conn))"
    using assms by (rule unique_keys_run_stores)
  then show "duplicates (documents (run_stores env json_dumps ops conn)) = []"
    by (rule unique_keys_no_duplicates)
next
  assume "(dt, sn, dp) \<in> set (map row_key (documents conn))"
  then show "map row_key (documents (upsert_document env dt sn dp c m e tc conn))
              = map row_key (documents conn)"
    by (simp add: keys_upsert_document)
next
  assume "i < length (documents conn) \<and> row_key (documents conn ! i) = (dt, sn, dp)"
  then have "i < length (documents conn)" and "row_key (documents conn ! i) = (dt, sn, dp)"
    by simp_all
  from upsert_document_at [OF assms this, of env c m e tc]
  show "documents (upsert_document env dt sn dp c m e tc conn)
              = (documents conn)[i := (documents conn ! i)
                   \<lparr>content := c, metadata := m, embedding := e, token_count := tc,
                    updated_at := current_timestamp env (statements conn)\<rparr>]"
    by (simp add: do_update_def)
next
  assume "i < length (documents conn)
            \<and> row_key (documents conn ! i)
                = (''solana'', ''Solana Agave'', relative_path doc)"
  then have "i < length (documents conn)"
    and "row_key (documents conn ! i) = (''solana'', ''Solana Agave'', relative_path doc)"
    by simp_all
  from store_documents_at [OF assms this]
  show "documents (store_documents env json_dumps conn [doc] [emb])
              = (documents conn)[i := (documents conn ! i)
                   \<lparr>content := doc_content doc, metadata := json_dumps (doc_metadata doc),
                    embedding := emb, token_count := length (doc_content doc) div 4,
                    updated_at := current_timestamp env (statements conn)\<rparr>]" .
next
  assume "i < length (documents conn)
            \<and> row_key (documents conn ! i)
                = (''birdeye'', ''BirdEye API'', se_method sep @ '' '' @ se_path sep)"
  then have "i < length (documents conn)"
    and "row_key (documents conn ! i)
           = (''birdeye'', ''BirdEye API'', se_method sep @ '' '' @ se_path sep)"
    by simp_all
  from store_endpoints_simple_at [OF assms this]
  show "documents (store_endpoints_simple env json_dumps conn [sep] [emb])
              = (documents conn)[i := (documents conn ! i)
                   \<lparr>content := se_content sep, metadata := json_dumps (se_metadata sep),
                    embedding := emb, token_count := length (se_content sep) div 4,
                    updated_at := current_timestamp env (statements conn)\<rparr>]" .
qed

theorem unique_keys_invariant_witness:
  "unique_keys (documents example_db)
   \<and> unique_keys (documents (run_stores example_env example_dumps
        [SolanaStore [example_document, example_new_document] [[4], [5]],
         SimpleStore [example_simple_endpoint] [[6]],
         BirdeyeStore ''2025-01-01'' [example_endpoint] [[7]],
         SolanaStore [example_new_document] [[8]]] example_db))
   \<and> length (documents (run_stores example_env example_dumps
        [SolanaStore [example_document, example_new_document] [[4], [5]],
         SimpleStore [example_simple_endpoint] [[6]],
         BirdeyeStore ''2025-01-01'' [example_endpoint] [[7]],
         SolanaStore [example_new_document] [[8]]] example_db)) = 4
   \<and> (''solana'', ''Solana Agave'', ''docs/a.md'') \<in> set (map row_key (documents example_db))
   \<and> map row_key (documents (upsert_document example_env ''solana'' ''Solana Agave''
         ''docs/a.md'' ''# A again'' ''m3'' [4] 2 example_db))
       = map row_key (documents example_db)
   \<and> 2 < length (documents example_db)
   \<and> row_key (documents example_db ! 2) = (''solana'', ''Solana Agave'', ''docs/a.md'')
   \<and> row_key (documents example_db ! 2)
       = (''solana'', ''Solana Agave'', relative_path example_document)
   \<and> documents (upsert_document example_env ''solana'' ''Solana Agave''
         ''docs/a.md'' ''# A again'' ''m3'' [4] 2 example_db)
       = [example_rows ! 0, example_rows ! 1,
          \<lparr>doc_type = ''solana'', source_name = ''Solana Agave'', doc_path = ''docs/a.md'',
            content = ''# A again'', metadata = ''m3'', embedding = [4], token_count = 2,
            created_at = 3, updated_at = 103\<rparr>]
   \<and> documents (store_documents example_env example_dumps example_db [example_document] [[4]])
       = [example_rows ! 0, example_rows ! 1,
          \<lparr>doc_type = ''solana'', source_name = ''Solana Agave'', doc_path = ''docs/a.md'',
            content = ''# A again'', metadata = ''m3'', embedding = [4], token_count = 2,
            created_at = 3, updated_at = 103\<rparr>]
   \<and> 1 < length (documents example_db)
   \<and> row_key (documents example_db ! 1)
       = (''birdeye'', ''BirdEye API'',
          se_method example_simple_endpoint @ '' '' @ se_path example_simple_endpoint)
   \<and> documents (store_endpoints_simple example_env example_dumps example_db
        [example_simple_endpoint] [[6]])
       = [example_rows ! 0,
          \<lparr>doc_type = ''birdeye'', source_name = ''BirdEye API'', doc_path = ''GET /defi/price'',
            content = ''# Price spec'', metadata = ''m2'', embedding = [6], token_count = 3,
            created_at = 2, updated_at = 103\<rparr>,
          example_rows ! 2]"
proof -
  have u: "unique_keys (documents example_db)"
    by code_simp
  have k: "(''solana'', ''Solana Agave'', ''docs/a.md'') \<in> set (map row_key (documents example_db))"
    by code_simp
  have l: "length (documents (run_stores example_env example_dumps
        [SolanaStore [example_document, example_new_document] [[4], [5]],
         SimpleStore [example_simple_endpoint] [[6]],
         BirdeyeStore ''2025-01-01'' [example_endpoint] [[7]],
         SolanaStore [example_new_document] [[8]]] example_db)) = 4"
    by code_simp
  have n: "1 < length (documents example_db)" "2 < length (documents example_db)"
    by (simp_all add: example_db_def example_rows_def)
  have k2: "row_key (documents example_db ! 2) = (''solana'', ''Solana Agave'', ''docs/a.md'')"
    by code_simp
  have k2': "row_key (documents example_db ! 2)
       = (''solana'', ''Solana Agave'', relative_path example_document)"
    by code_simp
  have k1: "row_key (documents example_db ! 1)
       = (''birdeye'', ''BirdEye API'',
          se_method example_simple_endpoint @ '' '' @ se_path example_simple_endpoint)"
    by code_simp
  have r2: "(documents example_db)[2 := (documents example_db ! 2)
               \<lparr>content := ''# A again'', metadata := ''m3'', embedding := [4],
                token_count := 2,
                updated_at := current_timestamp example_env (statements example_db)\<rparr>]
      = [example_rows ! 0, example_rows ! 1,
          \<lparr>doc_type = ''solana'', source_name = ''Solana Agave'', doc_path = ''docs/a.md'',
            content = ''# A again'', metadata = ''m3'', embedding = [4], token_count = 2,
            created_at = 3, updated_at = 103\<rparr>]"
    by code_simp
  have r2': "(documents example_db)[2 := (documents example_db ! 2)
               \<lparr>content := doc_content example_document,
                metadata := example_dumps (doc_metadata example_document),
                embedding := [4], token_count := length (doc_content example_document) div 4,
                updated_at := current_timestamp example_env (statements example_db)\<rparr>]
      = [example_rows ! 0, example_rows ! 1,
          \<lparr>doc_type = ''solana'', source_name = ''Solana Agave'', doc_path = ''docs/a.md'',
            content = ''# A again'', metadata = ''m3'', embedding = [4], token_count = 2,
            created_at = 3, updated_at = 103\<rparr>]"
    by code_simp
  have r1: "(documents example_db)[1 := (documents example_db ! 1)
               \<lparr>content := se_content example_simple_endpoint,
                metadata := example_dumps (se_metadata example_simple_endpoint),
                embedding := [6],
                token_count := length (se_content example_simple_endpoint) div 4,
                updated_at := current_timestamp example_env (statements example_db)\<rparr>]
      = [example_rows ! 0,
          \<lparr>doc_type = ''birdeye'', source_name = ''BirdEye API'', doc_path = ''GET /defi/price'',
            content = ''# Price spec'', metadata = ''m2'', embedding = [6], token_count = 3,
            created_at = 2, updated_at = 103\<rparr>,
          example_rows ! 2]"
    by code_simp
  note t = unique_keys_invariant [OF u, where env = example_env and json_dumps = example_dumps]
  from t [where ops = "[SolanaStore [example_document, example_new_document] [[4], [5]],
         SimpleStore [example_simple_endpoint] [[6]],
         BirdeyeStore ''2025-01-01'' [example_endpoint] [[7]],
         SolanaStore [example_new_document] [[8]]]", THEN conjunct1]
  have a: "unique_keys (documents (run_stores example_env example_dumps
        [SolanaStore [example_document, example_new_document] [[4], [5]],
         SimpleStore [example_simple_endpoint] [[6]],
         BirdeyeStore ''2025-01-01'' [example_endpoint] [[7]],
         SolanaStore [example_new_document] [[8]]] example_db))" .
  from t [where dt = "''solana''" and sn = "''Solana Agave''" and dp = "''docs/a.md''"
      and c = "''# A again''" and m = "''m3''" and e = "[4]" and tc = 2,
      THEN conjunct2, THEN conjunct2, THEN conjunct1, THEN mp, OF k]
  have b: "map row_key (documents (upsert_document example_env ''solana'' ''Solana Agave''
         ''docs/a.md'' ''# A again'' ''m3'' [4] 2 example_db))
       = map row_key (documents example_db)" .
  from t [where dt = "''solana''" and sn = "''Solana Agave''" and dp = "''docs/a.md''"
      and c = "''# A again''" and m = "''m3''" and e = "[4]" and tc = 2 and i = 2,
      THEN conjunct2, THEN conjunct2, THEN conjunct2, THEN conjunct1, THEN mp,
      OF conjI [OF n(2) k2]] r2
  have c: "documents (upsert_document example_env ''solana'' ''Solana Agave''
         ''docs/a.md'' ''# A again'' ''m3'' [4] 2 example_db)
       = [example_rows ! 0, example_rows ! 1,
          \<lparr>doc_type = ''solana'', source_name = ''Solana Agave'', doc_path = ''docs/a.md'',
            content = ''# A again'', metadata = ''m3'', embedding = [4], token_count = 2,
            created_at = 3, updated_at = 103\<rparr>]"
    by (rule trans)
  from t [where doc = example_document and emb = "[4]" and i = 2,
      THEN conjunct2, THEN conjunct2, THEN conjunct2, THEN conjunct2, THEN conjunct1, THEN mp,
      OF conjI [OF n(2) k2']] r2'
  have d: "documents (store_documents example_env example_dumps example_db [example_document] [[4]])
       = [example_rows ! 0, example_rows ! 1,
          \<lparr>doc_type = ''solana'', source_name = ''Solana Agave'', doc_path = ''docs/a.md'',
            content = ''# A again'', metadata = ''m3'', embedding = [4], token_count = 2,
            created_at = 3, updated_at = 103\<rparr>]"
    by (rule trans)
  from t [where sep = example_simple_endpoint and emb = "[6]" and i = 1,
      THEN conjunct2, THEN conjunct2, THEN conjunct2, THEN conjunct2, THEN conjunct2, THEN mp,
      OF conjI [OF n(1) k1]] r1
  have f: "documents (store_endpoints_simple example_env example_dumps example_db
        [example_simple_endpoint] [[6]])
       = [example_rows ! 0,
          \<lparr>doc_type = ''birdeye'', source_name = ''BirdEye API'', doc_path = ''GET /defi/price'',
            content = ''# Price spec'', metadata = ''m2'', embedding = [6], token_count = 3,
            created_at = 2, updated_at = 103\<rparr>,
          example_rows ! 2]"
    by (rule trans)
  from u a l k b n(2) k2 k2' c d n(1) k1 f show ?thesis
    by (intro conjI)
qed

section \<open>A colliding endpoint of ingest\_birdeye\<close>

text \<open>
  C7 (the code at an endpoint whose key is in the table).  \<open>store_endpoints\<close> of
  \<open>ingest_birdeye\<close> works on a connection that has no codec for \<open>vector\<close>: every
  \<open>store_document\<close> on it raises, and the table is left as it was, whatever the
  endpoints and embeddings.  In the example the table has a row with the key of the
  endpoint \<open>GET /defi/price\<close>; the store ends with \<open>DataError\<close>, and the row keeps its
  content, metadata, embedding, token\_count and updated\_at instead of getting the
  endpoint's.  \<open>store_documents\<close> of the Solana scripts, on the same table and at a
  document with the key of a row, does give the row the document's content.
\<close>

theorem birdeye_collision_updates_nothing:
  "documents (snd (store_endpoints env json_dumps utcnow conn eps embs)) = documents conn
   \<and> (\<exists>e. store_document env json_dumps (connect conn) ep emb = Inl e)
   \<and> ep_path example_endpoint = JStr ''/defi/price''
   \<and> row_key (documents example_db ! 0)
       = (''birdeye'', ''birdeye-api'',
          lower (ep_method example_endpoint) @ replace_char CHR ''/'' CHR ''_'' ''/defi/price'')
   \<and> store_document example_env example_dumps (connect example_db) example_endpoint [7]
       = Inl DataError
   \<and> fst (store_endpoints example_env example_dumps ''2025-01-01'' example_db
        [example_endpoint] [[7]]) = Inl DataError
   \<and> documents (snd (store_endpoints example_env example_dumps ''2025-01-01'' example_db
        [example_endpoint] [[7]])) = documents example_db
   \<and> documents example_db ! 0
       = \<lparr>doc_type = ''birdeye'', source_name = ''birdeye-api'', doc_path = ''get_defi_price'',
          content = ''old price'', metadata = ''{}'', embedding = [1], token_count = 2,
          created_at = 1, updated_at = 1\<rparr>
   \<and> ep_content example_endpoint = ''# Price now''
   \<and> row_key (documents example_db ! 2)
       = (''solana'', ''Solana Agave'', relative_path example_document)
   \<and> documents (store_documents example_env example_dumps example_db [example_document] [[4]])
       = [documents example_db ! 0, documents example_db ! 1,
          \<lparr>doc_type = ''solana'', source_name = ''Solana Agave'', doc_path = ''docs/a.md'',
            content = ''# A again'', metadata = ''m3'', embedding = [4], token_count = 2,
            created_at = 3, updated_at = 103\<rparr>]"
proof -
  have 1: "documents (snd (store_endpoints env json_dumps utcnow conn eps embs)) = documents conn"
    by (rule documents_store_endpoints)
  have "\<not> vector_codec (connect conn)"
    by (simp add: connect_def)
  then have 2: "\<exists>e. store_document env json_dumps (connect conn) ep emb = Inl e"
    by (rule store_document_no_codec)
  have 3: "ep_path example_endpoint = JStr ''/defi/price''"
    by (simp add: example_endpoint_def)
  have 4: "row_key (documents example_db ! 0)
       = (''birdeye'', ''birdeye-api'',
          lower (ep_method example_endpoint) @ replace_char CHR ''/'' CHR ''_'' ''/defi/price'')"
    by code_simp
  have 5: "store_document example_env example_dumps (connect example_db) example_endpoint [7]
       = Inl DataError"
    by code_simp
  have 6: "fst (store_endpoints example_env example_dumps ''2025-01-01'' example_db
        [example_endpoint] [[7]]) = Inl DataError"
    by code_simp
  have 7: "documents (snd (store_endpoints example_env example_dumps ''2025-01-01'' example_db
        [example_endpoint] [[7]])) = documents example_db"
    by code_simp
  have 8: "documents example_db ! 0
       = \<lparr>doc_type = ''birdeye'', source_name = ''birdeye-api'', doc_path = ''get_defi_price'',
          content = ''old price'', metadata = ''{}'', embedding = [1], token_count = 2,
          created_at = 1, updated_at = 1\<rparr>"
    by (simp add: example_db_def example_rows_def)
  have 9: "ep_content example_endpoint = ''# Price now''"
    by (simp add: example_endpoint_def)
  have 10: "row_key (documents example_db ! 2)
       = (''solana'', ''Solana Agave'', relative_path example_document)"
    by code_simp
  have 11: "documents (store_documents example_env example_dumps example_db [example_document] [[4]])
       = [documents example_db ! 0, documents example_db ! 1,
          \<lparr>doc_type = ''solana'', source_name = ''Solana Agave'', doc_path = ''docs/a.md'',
            content = ''# A again'', metadata = ''m3'', embedding = [4], token_count = 2,
            created_at = 3, updated_at = 103\<rparr>]"
    by code_simp
  from 1 2 3 4 5 6 7 8 9 10 11 show ?thesis
    by (intro conjI)
qed

section \<open>Storing twice\<close>

lemma upsert_all_single: "upsert_all env [v] conn = upsert_values env v conn"
  by (simp add: upsert_all_def)

lemma store_document_twice:
  "case store_document env jd conn ep emb of
     Inl e \<Rightarrow> True
   | Inr c1 \<Rightarrow>
       (case store_document env jd c1 ep emb of
          Inl e' \<Rightarrow> False
        | Inr c2 \<Rightarrow> same_upto_updated_at (documents c2) (documents c1))"
proof (cases "ep_path ep")
  case (JStr p)
  let ?v = "((''birdeye'', ''birdeye-api'', lower (ep_method ep) @ replace_char CHR ''/'' CHR ''_'' p),
             (ep_content ep, jd (ep_metadata ep), emb, split_len (ep_content ep)))"
  have "same_upto_updated_at (documents (upsert_all env [?v] (upsert_all env [?v] conn)))
          (documents (upsert_all env [?v] conn))"
    by (rule upsert_all_twice) simp
  with JStr show ?thesis
    by (simp add: store_document_def execute_upsert_def upsert_all_single
        vector_codec_upsert_document)
qed (simp_all add: store_document_def)

text \<open>
  C1.  For a table whose rows have distinct keys, running a store operation a second
  time with the same endpoints or documents and the same embeddings leaves the table
  as the first run left it, up to \<open>updated_at\<close>.  This holds for \<open>store_endpoints\<close>
  of both BirdEye scripts, for \<open>store_documents\<close> of the Solana scripts and for a
  single \<open>store_document\<close> (when the first call raises nothing is stored, and when it
  succeeds so does the second).
\<close>

theorem store_twice_same:
  assumes "unique_keys (documents conn)"
  shows "same_upto_updated_at
           (documents (snd (store_endpoints env json_dumps utcnow'
              (snd (store_endpoints env json_dumps utcnow conn eps embs)) eps embs)))
           (documents (snd (store_endpoints env json_dumps utcnow conn eps embs)))
       \<and> same_upto_updated_at
           (documents (store_endpoints_simple env json_dumps
              (store_endpoints_simple env json_dumps conn seps embs) seps embs))
           (documents (store_endpoints_simple env json_dumps conn seps embs))
       \<and> same_upto_updated_at
           (documents (store_documents env json_dumps
              (store_documents env json_dumps conn docs embs) docs embs))
           (documents (store_documents env json_dumps conn docs embs))
       \<and> (case store_document env json_dumps conn ep emb of
             Inl e \<Rightarrow> True
           | Inr c1 \<Rightarrow>
               (case store_document env json_dumps c1 ep emb of
                  Inl e' \<Rightarrow> False
                | Inr c2 \<Rightarrow> same_upto_updated_at (documents c2) (documents c1)))"
proof (intro conjI)
  let ?first = "snd (store_endpoints env json_dumps utcnow conn eps embs)"
  show "same_upto_updated_at
           (documents (snd (store_endpoints env json_dumps utcnow' ?first eps embs)))
           (documents ?first)"
    by (simp add: documents_store_endpoints [of env json_dumps utcnow' ?first]
        same_upto_updated_at_def)
next
  show "same_upto_updated_at
           (documents (store_endpoints_simple env json_dumps
              (store_endpoints_simple env json_dumps conn seps embs) seps embs))
           (documents (store_endpoints_simple env json_dumps conn seps embs))"
    unfolding documents_store_endpoints_simple
        [of env json_dumps "store_endpoints_simple env json_dumps conn seps embs"]
    by (rule upsert_all_twice) (rule documents_store_endpoints_simple)
next
  show "same_upto_updated_at
           (documents (store_documents env json_dumps
              (store_documents env json_dumps conn docs embs) docs embs))
           (documents (store_documents env json_dumps conn docs embs))"
    unfolding documents_store_documents
        [of env json_dumps "store_documents env json_dumps conn docs embs"]
    by (rule upsert_all_twice) (rule documents_store_documents)
next
  show "case store_document env json_dumps conn ep emb of
             Inl e \<Rightarrow> True
           | Inr c1 \<Rightarrow>
               (case store_document env json_dumps c1 ep emb of
                  Inl e' \<Rightarrow> False
                | Inr c2 \<Rightarrow> same_upto_updated_at (documents c2) (documents c1))"
    by (rule store_document_twice)
qed

theorem store_twice_same_witness:
  "unique_keys (documents example_db)
   \<and> same_upto_updated_at
       (documents (snd (store_endpoints example_env example_dumps ''2025-01-02''
          (snd (store_endpoints example_env example_dumps ''2025-01-01'' example_db
             [example_endpoint, example_endpoint\<lparr>ep_path := JStr ''/defi/history''\<rparr>] [[7], [8]]))
          [example_endpoint, example_endpoint\<lparr>ep_path := JStr ''/defi/history''\<rparr>] [[7], [8]])))
       (documents (snd (store_endpoints example_env example_dumps ''2025-01-01'' example_db
          [example_endpoint, example_endpoint\<lparr>ep_path := JStr ''/defi/history''\<rparr>] [[7], [8]])))
   \<and> same_upto_updated_at
       (documents (store_endpoints_simple example_env example_dumps
          (store_endpoints_simple example_env example_dumps example_db
             [example_simple_endpoint] [[6]]) [example_simple_endpoint] [[6]]))
       (documents (store_endpoints_simple example_env example_dumps example_db
          [example_simple_endpoint] [[6]]))
   \<and> same_upto_updated_at
       (documents (store_documents example_env example_dumps
          (store_documents example_env example_dumps example_db
             [example_document, example_new_document] [[4], [5]])
          [example_document, example_new_document] [[4], [5]]))
       (documents (store_documents example_env example_dumps example_db
          [example_document, example_new_document] [[4], [5]]))
   \<and> length (documents (store_documents example_env example_dumps example_db
          [example_document, example_new_document] [[4], [5]])) = 4"
proof -
  have u: "unique_keys (documents example_db)"
    by code_simp
  have l: "length (documents (store_documents example_env example_dumps example_db
          [example_document, example_new_document] [[4], [5]])) = 4"
    by code_simp
  from store_twice_same [OF u, where env = example_env and json_dumps = example_dumps
      and utcnow = "''2025-01-01''" and utcnow' = "''2025-01-02''"
      and eps = "[example_endpoint, example_endpoint\<lparr>ep_path := JStr ''/defi/history''\<rparr>]"
      and embs = "[[7], [8]]"]
  have a: "same_upto_updated_at
       (documents (snd (store_endpoints example_env example_dumps ''2025-01-02''
          (snd (store_endpoints example_env example_dumps ''2025-01-01'' example_db
             [example_endpoint, example_endpoint\<lparr>ep_path := JStr ''/defi/history''\<rparr>] [[7], [8]]))
          [example_endpoint, example_endpoint\<lparr>ep_path := JStr ''/defi/history''\<rparr>] [[7], [8]])))
       (documents (snd (store_endpoints example_env example_dumps ''2025-01-01'' example_db
          [example_endpoint, example_endpoint\<lparr>ep_path := JStr ''/defi/history''\<rparr>] [[7], [8]])))"
    by blast
  from store_twice_same [OF u, where env = example_env and json_dumps = example_dumps
      and seps = "[example_simple_endpoint]" and embs = "[[6]]"]
  have b: "same_upto_updated_at
       (documents (store_endpoints_simple example_env example_dumps
          (store_endpoints_simple example_env example_dumps example_db
             [example_simple_endpoint] [[6]]) [example_simple_endpoint] [[6]]))
       (documents (store_endpoints_simple example_env example_dumps example_db
          [example_simple_endpoint] [[6]]))"
    by blast
  from store_twice_same [OF u, where env = example_env and json_dumps = example_dumps
      and docs = "[example_document, example_new_document]" and embs = "[[4], [5]]"]
  have c: "same_upto_updated_at
       (documents (store_documents example_env example_dumps
          (store_documents example_env example_dumps example_db
             [example_document, example_new_document] [[4], [5]])
          [example_document, example_new_document] [[4], [5]]))
       (documents (store_documents example_env example_dumps example_db
          [example_document, example_new_document] [[4], [5]]))"
    by blast
  from u a b c l show ?thesis by blast
qed

section \<open>Fetching an endpoint\<close>

lemma extract_endpoint_data_returns:
  "\<exists>r. fst (extract_endpoint_data http_get py url) = Inr r"
proof (cases "extract_try http_get py url")
  case (Pair a evs)
  then show ?thesis
    by (cases a) (simp_all add: extract_endpoint_data_def)
qed

lemma extract_endpoint_data_events:
  "snd (extract_endpoint_data http_get py url) =
     (if str_in ''/reference/'' url then [HttpGet (api_url_of url)] else [])"
proof -
  have "snd (extract_endpoint_data http_get py url) = snd (extract_try http_get py url)"
    by (cases "extract_try http_get py url")
      (auto simp: extract_endpoint_data_def split: sum.splits)
  then show ?thesis
    by (simp add: extract_try_def Let_def)
qed

lemma extract_endpoint_data_None:
  assumes "\<And>r. fst (extract_try http_get py url) = Inr r \<Longrightarrow> r = None"
  shows "fst (extract_endpoint_data http_get py url) = Inr None"
proof (cases "extract_try http_get py url")
  case (Pair a evs)
  with assms show ?thesis
    by (cases a) (simp_all add: extract_endpoint_data_def)
qed

lemma extract_invalid_url:
  "\<not> str_in ''/reference/'' url \<Longrightarrow> fst (extract_endpoint_data http_get py url) = Inr None"
  by (rule extract_endpoint_data_None) (simp add: extract_try_def)

lemma extract_no_connection:
  "http_get (api_url_of url) = Inl e \<Longrightarrow> fst (extract_endpoint_data http_get py url) = Inr None"
  by (rule extract_endpoint_data_None)
    (simp add: extract_try_def Let_def bind_exn_def split: if_splits)

lemma extract_http_error:
  "http_get (api_url_of url) = Inr (status, body) \<Longrightarrow> 400 \<le> status \<Longrightarrow> status < 600 \<Longrightarrow>
   fst (extract_endpoint_data http_get py url) = Inr None"
  by (rule extract_endpoint_data_None)
    (simp add: extract_try_def Let_def bind_exn_def raise_for_status_def split: if_splits)

lemma extract_not_json:
  "http_get (api_url_of url) = Inr (status, None) \<Longrightarrow>
   fst (extract_endpoint_data http_get py url) = Inr None"
  by (rule extract_endpoint_data_None)
    (simp add: extract_try_def Let_def bind_exn_def raise_for_status_def split: if_splits)

lemma extract_no_data:
  "http_get (api_url_of url) = Inr (status, Some data) \<Longrightarrow> py_contains ''data'' data \<noteq> Inr True \<Longrightarrow>
   fst (extract_endpoint_data http_get py url) = Inr None"
  by (rule extract_endpoint_data_None)
    (auto simp: extract_try_def Let_def bind_exn_def raise_for_status_def
      split: sum.splits if_splits)

text \<open>What one pass of the loop keeps of a URL.\<close>

lemma extract_loop_result:
  "fst (extract_loop http_get py len i urls) =
     Inr (concat (map (\<lambda>url. case fst (extract_endpoint_data http_get py url) of
                               Inr (Some ep) \<Rightarrow> [ep] | _ \<Rightarrow> []) urls))"
proof (induction urls arbitrary: i)
  case Nil
  then show ?case by simp
next
  case (Cons url urls)
  obtain r where r: "fst (extract_endpoint_data http_get py url) = Inr r"
    using extract_endpoint_data_returns by blast
  then obtain evs where e: "extract_endpoint_data http_get py url = (Inr r, evs)"
    by (cases "extract_endpoint_data http_get py url") simp
  obtain evs' where l: "extract_loop http_get py len (Suc i) urls =
      (Inr (concat (map (\<lambda>url. case fst (extract_endpoint_data http_get py url) of
                               Inr (Some ep) \<Rightarrow> [ep] | _ \<Rightarrow> []) urls)), evs')"
    using Cons.IH [of "Suc i"] by (cases "extract_loop http_get py len (Suc i) urls") simp
  show ?case
    by (cases r) (simp_all add: e l Let_def)
qed

lemma extract_loop_requests:
  "filter is_http_get (snd (extract_loop http_get py len i urls)) =
     map (\<lambda>url. HttpGet (api_url_of url)) (filter (str_in ''/reference/'') urls)"
proof (induction urls arbitrary: i)
  case Nil
  then show ?case by simp
next
  case (Cons url urls)
  obtain r where r: "fst (extract_endpoint_data http_get py url) = Inr r"
    using extract_endpoint_data_returns by blast
  have e: "extract_endpoint_data http_get py url =
             (Inr r, if str_in ''/reference/'' url then [HttpGet (api_url_of url)] else [])"
    using r extract_endpoint_data_events [of http_get py url]
    by (cases "extract_endpoint_data http_get py url") simp
  obtain eps evs' where l: "extract_loop http_get py len (Suc i) urls = (Inr eps, evs')"
    using extract_loop_result [of http_get py len "Suc i" urls]
    by (cases "extract_loop http_get py len (Suc i) urls") simp
  from Cons.IH [of "Suc i"] l
  have "filter is_http_get evs' =
     map (\<lambda>url. HttpGet (api_url_of url)) (filter (str_in ''/reference/'') urls)"
    by simp
  then show ?case
    by (simp add: e l Let_def)
qed

text \<open>
  C6.  \<open>extract_endpoint_data\<close> never raises; it sends one request when the URL holds
  \<open>/reference/\<close> and none otherwise; and it returns \<open>None\<close> for an invalid URL, when the
  request fails, for a status from 400 to 599, for a body that is not JSON and for a
  body without \<open>data\<close>.  The loop of \<open>main\<close> never stops early: it keeps the endpoints
  of the URLs that gave one, in order, and its requests are one for each valid URL of
  the list, in the order of the list, so that no URL is requested a second time.
\<close>

theorem fetch_failures_skipped:
  "(\<exists>r. fst (extract_endpoint_data http_get py url) = Inr r)
   \<and> snd (extract_endpoint_data http_get py url) =
       (if str_in ''/reference/'' url then [HttpGet (api_url_of url)] else [])
   \<and> (\<not> str_in ''/reference/'' url \<longrightarrow>
         fst (extract_endpoint_data http_get py url) = Inr None)
   \<and> (http_get (api_url_of url) = Inl e \<longrightarrow>
         fst (extract_endpoint_data http_get py url) = Inr None)
   \<and> (http_get (api_url_of url) = Inr (status, body) \<and> 400 \<le> status \<and> status < 600 \<longrightarrow>
         fst (extract_endpoint_data http_get py url) = Inr None)
   \<and> (http_get (api_url_of url) = Inr (status, None) \<longrightarrow>
         fst (extract_endpoint_data http_get py url) = Inr None)
   \<and> (http_get (api_url_of url) = Inr (status, Some data)
        \<and> py_contains ''data'' data \<noteq> Inr True \<longrightarrow>
         fst (extract_endpoint_data http_get py url) = Inr None)
   \<and> fst (extract_loop http_get py len i urls) =
       Inr (concat (map (\<lambda>url. case fst (extract_endpoint_data http_get py url) of
                                 Inr (Some ep) \<Rightarrow> [ep] | _ \<Rightarrow> []) urls))
   \<and> filter is_http_get (snd (extract_loop http_get py len i urls)) =
       map (\<lambda>url. HttpGet (api_url_of url)) (filter (str_in ''/reference/'') urls)"
  using extract_endpoint_data_returns [of http_get py url]
    extract_endpoint_data_events [of http_get py url]
    extract_invalid_url [of url http_get py]
    extract_no_connection [of http_get url e py]
    extract_http_error [of http_get url status body py]
    extract_not_json [of http_get url status py]
    extract_no_data [of http_get url status data py]
    extract_loop_result [of http_get py len i urls]
    extract_loop_requests [of http_get py len i urls]
  by blast

theorem fetch_failures_skipped_witness:
  "\<not> str_in ''/reference/'' ''https://docs.birdeye.so/docs/overview''
   \<and> fst (extract_endpoint_data example_http example_py ''https://docs.birdeye.so/docs/overview'')
       = Inr None
   \<and> example_http (api_url_of ''https://docs.birdeye.so/reference/other'') = Inl ConnectionError
   \<and> fst (extract_endpoint_data example_http example_py ''https://docs.birdeye.so/reference/other'')
       = Inr None
   \<and> example_http (api_url_of ''https://docs.birdeye.so/reference/gone'') = Inr (404, None)
   \<and> fst (extract_endpoint_data example_http example_py ''https://docs.birdeye.so/reference/gone'')
       = Inr None
   \<and> example_http (api_url_of ''https://docs.birdeye.so/reference/empty'')
       = Inr (200, Some (JObj [(''error'', JStr ''no such page'')]))
   \<and> py_contains ''data'' (JObj [(''error'', JStr ''no such page'')]) \<noteq> Inr True
   \<and> fst (extract_endpoint_data example_http example_py ''https://docs.birdeye.so/reference/empty'')
       = Inr None
   \<and> filter is_http_get (snd (extract_loop example_http example_py 4 0
         [''https://docs.birdeye.so/reference/gone'', ''https://docs.birdeye.so/docs/overview'',
          ''https://docs.birdeye.so/reference/get-defi-price'',
          ''https://docs.birdeye.so/reference/gone'']))
       = [HttpGet (api_url_of ''https://docs.birdeye.so/reference/gone''),
          HttpGet (api_url_of ''https://docs.birdeye.so/reference/get-defi-price''),
          HttpGet (api_url_of ''https://docs.birdeye.so/reference/gone'')]
   \<and> (\<exists>eps. fst (extract_loop example_http example_py 4 0
         [''https://docs.birdeye.so/reference/gone'', ''https://docs.birdeye.so/docs/overview'',
          ''https://docs.birdeye.so/reference/get-defi-price'',
          ''https://docs.birdeye.so/reference/gone'']) = Inr eps \<and> length eps = 1)"
proof -
  let ?overview = "''https://docs.birdeye.so/docs/overview''"
  let ?other = "''https://docs.birdeye.so/reference/other''"
  let ?gone = "''https://docs.birdeye.so/reference/gone''"
  let ?empty = "''https://docs.birdeye.so/reference/empty''"
  let ?price = "''https://docs.birdeye.so/reference/get-defi-price''"
  have a1: "\<not> str_in ''/reference/'' ?overview"
    by code_simp
  have a2: "example_http (api_url_of ?other) = Inl ConnectionError"
    by code_simp
  have a3: "example_http (api_url_of ?gone) = Inr (404, None)"
    by code_simp
  have a4: "example_http (api_url_of ?empty)
       = Inr (200, Some (JObj [(''error'', JStr ''no such page'')]))"
    by code_simp
  have a5: "py_contains ''data'' (JObj [(''error'', JStr ''no such page'')]) \<noteq> Inr True"
    by simp
  have a6: "filter (str_in ''/reference/'') [?gone, ?overview, ?price, ?gone] = [?gone, ?price, ?gone]"
    by code_simp
  have a7: "length (concat (map (\<lambda>url. case fst (extract_endpoint_data example_http example_py url) of
                                 Inr (Some ep) \<Rightarrow> [ep] | _ \<Rightarrow> []) [?gone, ?overview, ?price, ?gone]))
              = 1"
    by code_simp
  have b1: "fst (extract_endpoint_data example_http example_py ?overview) = Inr None"
    using fetch_failures_skipped [where url = ?overview and http_get = example_http
        and py = example_py] a1 by blast
  have b2: "fst (extract_endpoint_data example_http example_py ?other) = Inr None"
    using fetch_failures_skipped [where url = ?other and http_get = example_http
        and py = example_py and e = ConnectionError] a2 by blast
  have b3: "fst (extract_endpoint_data example_http example_py ?gone) = Inr None"
    using fetch_failures_skipped [where url = ?gone and http_get = example_http
        and py = example_py and status = 404 and body = None] a3 by simp
  have b4: "fst (extract_endpoint_data example_http example_py ?empty) = Inr None"
    using fetch_failures_skipped [where url = ?empty and http_get = example_http
        and py = example_py and status = 200
        and data = "JObj [(''error'', JStr ''no such page'')]"] a4 a5 by blast
  have b5: "filter is_http_get (snd (extract_loop example_http example_py 4 0
         [?gone, ?overview, ?price, ?gone]))
       = [HttpGet (api_url_of ?gone), HttpGet (api_url_of ?price), HttpGet (api_url_of ?gone)]"
    using fetch_failures_skipped [where http_get = example_http and py = example_py
        and len = 4 and i = 0 and urls = "[?gone, ?overview, ?price, ?gone]"] a6
    by simp
  have b6: "\<exists>eps. fst (extract_loop example_http example_py 4 0
         [?gone, ?overview, ?price, ?gone]) = Inr eps \<and> length eps = 1"
    using fetch_failures_skipped [where http_get = example_http and py = example_py
        and len = 4 and i = 0 and urls = "[?gone, ?overview, ?price, ?gone]"] a7
    by blast
  from a1 b1 a2 b2 a3 b3 a4 a5 b4 b5 b6 show ?thesis
    by (intro conjI)
qed

section \<open>The order of a run\<close>

lemma extract_loop_fetch_events:
  "list_all is_fetch_event (snd (extract_loop http_get py len i urls))"
proof (induction urls arbitrary: i)
  case Nil
  then show ?case by simp
next
  case (Cons url urls)
  obtain r where r: "fst (extract_endpoint_data http_get py url) = Inr r"
    using extract_endpoint_data_returns by blast
  have e: "extract_endpoint_data http_get py url =
             (Inr r, if str_in ''/reference/'' url then [HttpGet (api_url_of url)] else [])"
    using r extract_endpoint_data_events [of http_get py url]
    by (cases "extract_endpoint_data http_get py url") simp
  obtain a evs' where l: "extract_loop http_get py len (Suc i) urls = (a, evs')"
    by (cases "extract_loop http_get py len (Suc i) urls")
  with Cons.IH [of "Suc i"] have "list_all is_fetch_event evs'" by simp
  then show ?case
    by (cases a) (simp_all add: e l Let_def)
qed

lemma generate_embedding_http_events:
  "snd (generate_embedding_http post t) = [EmbeddingRequest (truncate_text t)]"
  by (simp add: generate_embedding_http_def Let_def)

lemma generate_embedding_events:
  "snd (generate_embedding api t) = [EmbeddingRequest (truncate_text t)]"
  by (simp add: generate_embedding_def Let_def)

lemma embed_loop_events: "list_all is_embedding_event (snd (embed_loop post endpoints))"
proof (induction endpoints)
  case Nil
  then show ?case by simp
next
  case (Cons endpoint endpoints)
  obtain g where g: "generate_embedding_http post (ep_content endpoint)
      = (g, [EmbeddingRequest (truncate_text (ep_content endpoint))])"
    using generate_embedding_http_events [of post "ep_content endpoint"]
    by (cases "generate_embedding_http post (ep_content endpoint)") simp
  obtain a evs' where l: "embed_loop post endpoints = (a, evs')"
    by (cases "embed_loop post endpoints")
  with Cons.IH have "list_all is_embedding_event evs'" by simp
  then show ?case
    by (cases g; cases a) (simp_all add: g l)
qed

lemma embed_documents_events: "list_all is_embedding_event (snd (embed_documents api docs))"
proof (induction docs)
  case Nil
  then show ?case by simp
next
  case (Cons doc docs)
  obtain g where g: "generate_embedding api (doc_content doc)
      = (g, [EmbeddingRequest (truncate_text (doc_content doc))])"
    using generate_embedding_events [of api "doc_content doc"]
    by (cases "generate_embedding api (doc_content doc)") simp
  obtain a evs' where l: "embed_documents api docs = (a, evs')"
    by (cases "embed_documents api docs")
  with Cons.IH have "list_all is_embedding_event evs'" by simp
  then show ?case
    by (cases g; cases a) (simp_all add: g l)
qed

lemma upsert_events_upserts: "list_all is_upsert_event (upsert_events conn conn')"
  by (auto simp: upsert_events_def list_all_iff)

lemma process_markdown_file_events:
  "list_all is_fetch_event (snd (process_markdown_file env path))"
proof -
  have "snd (process_markdown_file env path) = snd (process_markdown_try env path)"
    by (cases "process_markdown_try env path")
      (auto simp: process_markdown_file_def split: sum.splits)
  then show ?thesis
    by (simp add: process_markdown_try_def split: sum.splits)
qed

lemma process_documentation_file_events:
  "list_all is_fetch_event (snd (process_documentation_file env path))"
proof -
  have "snd (process_documentation_file env path) = snd (process_documentation_try env path)"
    by (cases "process_documentation_try env path")
      (auto simp: process_documentation_file_def split: sum.splits)
  then show ?thesis
    by (simp add: process_documentation_try_def Let_def split: sum.splits)
qed

lemma process_files_events:
  assumes "\<And>path. list_all is_fetch_event (snd (process env path))"
  shows "list_all is_fetch_event (snd (process_files process env paths))"
proof (induction paths)
  case Nil
  then show ?case by simp
next
  case (Cons path paths)
  obtain r evs where p: "process env path = (r, evs)"
    by (cases "process env path")
  with assms [of path] have evs: "list_all is_fetch_event evs" by simp
  obtain a evs' where l: "process_files process env paths = (a, evs')"
    by (cases "process_files process env paths")
  with Cons.IH have "list_all is_fetch_event evs'" by simp
  with evs show ?case
    by (cases r; cases a) (simp_all add: p l split: sum.splits)
qed

lemma process_all_files_events: "list_all is_fetch_event (snd (process_all_files env))"
  by (simp add: process_all_files_def process_files_events process_documentation_file_events
      split: sum.splits)

lemma run_birdeye_phases:
  "\<exists>fetched embedded stored.
     snd (snd (run_birdeye http_get post py env jd conn urls)) = fetched @ embedded @ stored
     \<and> list_all is_fetch_event fetched \<and> list_all is_embedding_event embedded
     \<and> list_all is_upsert_event stored"
proof -
  obtain a evs1 where x: "extract_loop http_get py (length urls) 0 urls = (a, evs1)"
    by (cases "extract_loop http_get py (length urls) 0 urls")
  with extract_loop_fetch_events [of http_get py "length urls" 0 urls]
  have f: "list_all is_fetch_event evs1" by simp
  show ?thesis
  proof (cases a)
    case (Inl e)
    with x f have "snd (snd (run_birdeye http_get post py env jd conn urls)) = evs1 @ [] @ []"
      by (simp add: run_birdeye_def)
    with f show ?thesis
      by (intro exI [of _ evs1] exI [of _ "[]"]) simp
  next
    case (Inr endpoints)
    obtain b evs2 where y: "embed_loop post endpoints = (b, evs2)"
      by (cases "embed_loop post endpoints")
    with embed_loop_events [of post endpoints]
    have g: "list_all is_embedding_event evs2" by simp
    show ?thesis
    proof (cases "endpoints = []")
      case True
      with x Inr have "snd (snd (run_birdeye http_get post py env jd conn urls)) = evs1 @ [] @ []"
        by (simp add: run_birdeye_def)
      with f show ?thesis
      by (intro exI [of _ evs1] exI [of _ "[]"]) simp
    next
      case False
      show ?thesis
      proof (cases b)
        case (Inl e)
        with x y Inr False
        have "snd (snd (run_birdeye http_get post py env jd conn urls)) = evs1 @ evs2 @ []"
          by (simp add: run_birdeye_def)
        with f g show ?thesis
          by (intro exI [of _ evs1] exI [of _ evs2] exI [of _ "[]"]) simp
      next
        case (Inr embeddings)
        obtain r conn' where s: "store_endpoints env jd (utcnow_isoformat py) conn endpoints embeddings
            = (r, conn')"
          by (cases "store_endpoints env jd (utcnow_isoformat py) conn endpoints embeddings")
        with x y \<open>a = Inr endpoints\<close> False Inr
        have "snd (snd (run_birdeye http_get post py env jd conn urls))
                = evs1 @ evs2 @ upsert_events conn conn'"
          by (simp add: run_birdeye_def)
        with f g upsert_events_upserts [of conn conn'] show ?thesis
          by (intro exI [of _ evs1] exI [of _ evs2] exI [of _ "upsert_events conn conn'"]) simp
      qed
    qed
  qed
qed

lemma run_solana_phases:
  "\<exists>fetched embedded stored.
     snd (snd (run_solana senv api env jd conn)) = fetched @ embedded @ stored
     \<and> list_all is_fetch_event fetched \<and> list_all is_embedding_event embedded
     \<and> list_all is_upsert_event stored"
proof -
  obtain a evs1 where x: "process_all_files senv = (a, evs1)"
    by (cases "process_all_files senv")
  with process_all_files_events [of senv]
  have f: "list_all is_fetch_event evs1" by simp
  show ?thesis
  proof (cases a)
    case (Inl e)
    with x have "snd (snd (run_solana senv api env jd conn)) = evs1 @ [] @ []"
      by (simp add: run_solana_def)
    with f show ?thesis
      by (intro exI [of _ evs1] exI [of _ "[]"]) simp
  next
    case (Inr docs)
    obtain b evs2 where y: "embed_documents api docs = (b, evs2)"
      by (cases "embed_documents api docs")
    with embed_documents_events [of api docs]
    have g: "list_all is_embedding_event evs2" by simp
    show ?thesis
    proof (cases "docs = []")
      case True
      with x Inr have "snd (snd (run_solana senv api env jd conn)) = evs1 @ [] @ []"
        by (simp add: run_solana_def)
      with f show ?thesis
      by (intro exI [of _ evs1] exI [of _ "[]"]) simp
    next
      case False
      show ?thesis
      proof (cases b)
        case (Inl e)
        with x y Inr False
        have "snd (snd (run_solana senv api env jd conn)) = evs1 @ evs2 @ []"
          by (simp add: run_solana_def)
        with f g show ?thesis
          by (intro exI [of _ evs1] exI [of _ evs2] exI [of _ "[]"]) simp
      next
        case (Inr embeddings)
        with x y \<open>a = Inr docs\<close> False
        have "snd (snd (run_solana senv api env jd conn))
                = evs1 @ evs2 @ upsert_events conn (store_documents env jd conn docs embeddings)"
          by (simp add: run_solana_def Let_def)
        with f g upsert_events_upserts [of conn "store_documents env jd conn docs embeddings"]
        show ?thesis
          by (intro exI [of _ evs1] exI [of _ evs2]
              exI [of _ "upsert_events conn (store_documents env jd conn docs embeddings)"]) simp
      qed
    qed
  qed
qed

lemma no_events_phases:
  "\<exists>fetched embedded stored.
     ([] :: event list) = fetched @ embedded @ stored
     \<and> list_all is_fetch_event fetched \<and> list_all is_embedding_event embedded
     \<and> list_all is_upsert_event stored"
  by simp

text \<open>
  C5 (as the code has it).  A run works through its documents in three phases, not
  document by document: the trace of \<open>main\<close> of \<open>ingest_birdeye\<close> and of
  \<open>ingest_solana_comprehensive\<close> is a run of fetch events (requests to the
  documentation site or file reads, with the pauses between requests), followed by a
  run of embedding events (requests to the embedding API, with the pauses after them),
  followed by the upserts.  So every fetch of a run comes before every embedding
  request, and every embedding request before every upsert.
\<close>

theorem runs_work_in_phases:
  "(\<exists>fetched embedded stored.
      snd (snd (main_birdeye database_url openai_api_key http_get post py env json_dumps conn))
        = fetched @ embedded @ stored
      \<and> list_all is_fetch_event fetched \<and> list_all is_embedding_event embedded
      \<and> list_all is_upsert_event stored)
   \<and> (\<exists>fetched embedded stored.
      snd (snd (main_solana database_url openai_api_key repo_exists senv api env json_dumps conn))
        = fetched @ embedded @ stored
      \<and> list_all is_fetch_event fetched \<and> list_all is_embedding_event embedded
      \<and> list_all is_upsert_event stored)"
proof
  show "\<exists>fetched embedded stored.
      snd (snd (main_birdeye database_url openai_api_key http_get post py env json_dumps conn))
        = fetched @ embedded @ stored
      \<and> list_all is_fetch_event fetched \<and> list_all is_embedding_event embedded
      \<and> list_all is_upsert_event stored"
    unfolding main_birdeye_def Let_def
    using run_birdeye_phases no_events_phases by simp
next
  show "\<exists>fetched embedded stored.
      snd (snd (main_solana database_url openai_api_key repo_exists senv api env json_dumps conn))
        = fetched @ embedded @ stored
      \<and> list_all is_fetch_event fetched \<and> list_all is_embedding_event embedded
      \<and> list_all is_upsert_event stored"
    unfolding main_solana_def
    using run_solana_phases no_events_phases by simp
qed

section \<open>File discovery\<close>

lemma str_in_sublist: "str_in p s \<longleftrightarrow> sublist p s"
  by (induction s) (simp_all add: sublist_Cons_right)

lemma relative_to_rglob:
  "f \<in> set (rglob repo fs ext) \<Longrightarrow>
   \<exists>rel. relative_to repo f = Inr rel \<and> f = repo @ ''/'' @ rel \<and> suffix ext rel"
  by (auto simp: rglob_def relative_to_def)

lemma select_files_Inr:
  assumes "\<forall>f\<in>set found. \<exists>rel. relative_to repo f = Inr rel"
  shows "\<exists>kept. select_files repo found = Inr kept \<and> set kept \<subseteq> set found \<and>
           (\<forall>f\<in>set kept. \<exists>rel. relative_to repo f = Inr rel \<and>
              (\<forall>p\<in>set skip_patterns. \<not> str_in p rel))"
  using assms
proof (induction found)
  case Nil
  then show ?case by simp
next
  case (Cons f found)
  from Cons.prems obtain rel where rel: "relative_to repo f = Inr rel" by auto
  from Cons obtain kept where kept: "select_files repo found = Inr kept" "set kept \<subseteq> set found"
    "\<forall>f\<in>set kept. \<exists>rel. relative_to repo f = Inr rel \<and> (\<forall>p\<in>set skip_patterns. \<not> str_in p rel)"
    by auto
  show ?case
  proof (cases "list_ex (\<lambda>pattern. str_in pattern rel) skip_patterns")
    case True
    with rel kept show ?thesis
      by (auto simp: bind_exn_def)
  next
    case False
    then have "\<forall>p\<in>set skip_patterns. \<not> str_in p rel"
      by (simp add: list_ex_iff)
    with False rel kept show ?thesis
      by (auto simp: bind_exn_def)
  qed
qed

lemma select_files_rglob:
  "\<exists>kept. select_files repo (rglob repo fs ext) = Inr kept \<and>
     (\<forall>f\<in>set kept. \<exists>rel. relative_to repo f = Inr rel \<and>
        (\<forall>p\<in>set skip_patterns. \<not> str_in p rel) \<and> suffix ext f)"
proof -
  have "\<forall>f\<in>set (rglob repo fs ext). \<exists>rel. relative_to repo f = Inr rel"
    using relative_to_rglob by blast
  from select_files_Inr [OF this] obtain kept
    where kept: "select_files repo (rglob repo fs ext) = Inr kept"
      "set kept \<subseteq> set (rglob repo fs ext)"
      "\<forall>f\<in>set kept. \<exists>rel. relative_to repo f = Inr rel \<and> (\<forall>p\<in>set skip_patterns. \<not> str_in p rel)"
    by blast
  have "suffix ext f" if "f \<in> set kept" for f
  proof -
    from that kept(2) have "f \<in> set (rglob repo fs ext)" by blast
    then obtain rel where "f = repo @ ''/'' @ rel" "suffix ext rel"
      using relative_to_rglob by blast
    then show ?thesis
      by (metis append.assoc suffix_append suffix_def)
  qed
  with kept show ?thesis by blast
qed

text \<open>The name and the extension of a path that ends with a dot and letters.\<close>

lemma path_name_append:
  assumes "CHR ''/'' \<notin> set ext"
  shows "path_name (pre @ ext) = path_name pre @ ext"
proof -
  from assms have "c \<noteq> CHR ''/''" if "c \<in> set (rev ext)" for c
    using that by auto
  then have "takeWhile (\<lambda>c. c \<noteq> CHR ''/'') (rev ext @ rev pre)
               = rev ext @ takeWhile (\<lambda>c. c \<noteq> CHR ''/'') (rev pre)"
    by (rule takeWhile_append2)
  then show ?thesis
    by (simp add: path_name_def)
qed

lemma path_suffix_of_extension:
  assumes "suffix (CHR ''.'' # e) f" and "e \<noteq> []" and "CHR ''.'' \<notin> set e"
    and "CHR ''/'' \<notin> set e"
  shows "path_suffix f = CHR ''.'' # e \<or> path_name f = CHR ''.'' # e"
proof -
  from assms(1) obtain pre where f: "f = pre @ CHR ''.'' # e"
    by (auto simp: suffix_def)
  let ?n = "path_name pre"
  from assms(4) have "CHR ''/'' \<notin> set (CHR ''.'' # e)"
    by simp
  from path_name_append [OF this, of pre]
  have name: "path_name f = ?n @ CHR ''.'' # e"
    by (simp add: f)
  from assms(3) have "\<forall>c\<in>set (rev e). c \<noteq> CHR ''.''"
    by auto
  then have "takeWhile (\<lambda>c. c \<noteq> CHR ''.'') (rev e @ CHR ''.'' # rev ?n) = rev e"
    by (simp add: takeWhile_tail)
  then have tail: "takeWhile (\<lambda>c. c \<noteq> CHR ''.'') (rev (path_name f)) = rev e"
    by (simp add: name)
  show ?thesis
  proof (cases "?n = []")
    case True
    with name show ?thesis by simp
  next
    case False
    then have "length e + 1 < length (path_name f)"
      by (simp add: name)
    moreover have "CHR ''.'' \<in> set (path_name f)"
      by (simp add: name)
    ultimately have "path_suffix f = CHR ''.'' # e"
      using assms(2) tail by (simp add: path_suffix_def Let_def)
    then show ?thesis ..
  qed
qed

lemma path_suffix_supported:
  assumes "ext \<in> set supported_extensions" and "suffix ext f"
  shows "path_suffix f = ext \<or> path_name f = ext"
proof -
  from assms(1) have "ext = ''.md'' \<or> ext = ''.mdx'' \<or> ext = ''.bob'' \<or> ext = ''.msc''
      \<or> ext = ''.pdf''"
    by (simp add: supported_extensions_def)
  then obtain e where e: "ext = CHR ''.'' # e" "e \<noteq> []" "CHR ''.'' \<notin> set e"
    "CHR ''/'' \<notin> set e"
    by auto
  from path_suffix_of_extension [OF assms(2) [unfolded e(1)] e(2,3,4)] e(1)
  show ?thesis by simp
qed

lemma discover_extensions_Inr:
  "\<exists>doc_files. discover_extensions repo fs exts = Inr doc_files \<and>
     (\<forall>f\<in>set doc_files. \<exists>rel. relative_to repo f = Inr rel \<and>
        (\<forall>p\<in>set skip_patterns. \<not> str_in p rel) \<and> (\<exists>ext\<in>set exts. suffix ext f))"
proof (induction exts)
  case Nil
  then show ?case by simp
next
  case (Cons ext exts)
  from select_files_rglob [of repo fs ext] obtain kept
    where kept: "select_files repo (rglob repo fs ext) = Inr kept"
      "\<forall>f\<in>set kept. \<exists>rel. relative_to repo f = Inr rel \<and>
        (\<forall>p\<in>set skip_patterns. \<not> str_in p rel) \<and> suffix ext f"
    by blast
  from Cons.IH obtain rest
    where rest: "discover_extensions repo fs exts = Inr rest"
      "\<forall>f\<in>set rest. \<exists>rel. relative_to repo f = Inr rel \<and>
        (\<forall>p\<in>set skip_patterns. \<not> str_in p rel) \<and> (\<exists>ext\<in>set exts. suffix ext f)"
    by blast
  have "discover_extensions repo fs (ext # exts) = Inr (kept @ rest)"
    by (simp add: kept(1) rest(1) bind_exn_def)
  moreover have "\<forall>f\<in>set (kept @ rest). \<exists>rel. relative_to repo f = Inr rel \<and>
        (\<forall>p\<in>set skip_patterns. \<not> str_in p rel) \<and> (\<exists>e\<in>set (ext # exts). suffix e f)"
    using kept(2) rest(2) by fastforce
  ultimately show ?case by blast
qed

lemma discover_documentation_files_Inr:
  "\<exists>doc_files. discover_documentation_files repo fs = Inr doc_files \<and>
     (\<forall>f\<in>set doc_files. \<exists>rel. relative_to repo f = Inr rel \<and>
        (\<forall>p\<in>set skip_patterns. \<not> str_in p rel) \<and>
        (\<exists>ext\<in>set supported_extensions.
           suffix ext f \<and> (path_suffix f = ext \<or> path_name f = ext)))"
proof -
  from discover_extensions_Inr [of repo fs supported_extensions] obtain doc_files
    where d: "discover_extensions repo fs supported_extensions = Inr doc_files"
      and a: "\<forall>f\<in>set doc_files. \<exists>rel. relative_to repo f = Inr rel \<and>
        (\<forall>p\<in>set skip_patterns. \<not> str_in p rel) \<and>
        (\<exists>ext\<in>set supported_extensions. suffix ext f)"
    by blast
  have "\<exists>rel. relative_to repo f = Inr rel \<and>
        (\<forall>p\<in>set skip_patterns. \<not> str_in p rel) \<and>
        (\<exists>ext\<in>set supported_extensions.
           suffix ext f \<and> (path_suffix f = ext \<or> path_name f = ext))"
    if "f \<in> set doc_files" for f
  proof -
    from a that obtain rel ext where r: "relative_to repo f = Inr rel"
      "\<forall>p\<in>set skip_patterns. \<not> str_in p rel"
      and e: "ext \<in> set supported_extensions" "suffix ext f"
      by blast
    from path_suffix_supported [OF e] e r show ?thesis
      by blast
  qed
  with d show ?thesis
    unfolding discover_documentation_files_def by blast
qed

text \<open>
  C9 (as the code has it).  Both discovery functions return a list (they do not
  raise), and every path in it lies below the repository directory with a relative
  path in which none of the skip patterns \<open>node_modules/\<close>, \<open>.git/\<close>, \<open>target/\<close>,
  \<open>build/\<close>, \<open>dist/\<close>, \<open>CODEOWNERS\<close>, \<open>NOTICE\<close> occurs.  A path returned by
  \<open>discover_documentation_files\<close> moreover ends with one of \<open>.md\<close>, \<open>.mdx\<close>, \<open>.bob\<close>,
  \<open>.msc\<close>, \<open>.pdf\<close>, and this ending is the file's extension (\<open>Path.suffix\<close>) unless
  it is the file's whole name.
\<close>

theorem discovery_excludes_skipped:
  "(\<exists>md_files. discover_markdown_files repo fs = Inr md_files \<and>
      (\<forall>f\<in>set md_files. \<exists>rel. relative_to repo f = Inr rel \<and>
         (\<forall>p\<in>set [''node_modules/'', ''.git/'', ''target/'', ''build/'', ''dist/'',
                     ''CODEOWNERS'', ''NOTICE'']. \<not> str_in p rel)))
   \<and> (\<exists>doc_files. discover_documentation_files repo fs = Inr doc_files \<and>
      (\<forall>f\<in>set doc_files. \<exists>rel. relative_to repo f = Inr rel \<and>
         (\<forall>p\<in>set [''node_modules/'', ''.git/'', ''target/'', ''build/'', ''dist/'',
                     ''CODEOWNERS'', ''NOTICE'']. \<not> str_in p rel) \<and>
         (\<exists>ext\<in>set [''.md'', ''.mdx'', ''.bob'', ''.msc'', ''.pdf''].
            suffix ext f \<and> (path_suffix f = ext \<or> path_name f = ext))))"
proof
  from select_files_rglob [of repo fs "''.md''"]
  show "\<exists>md_files. discover_markdown_files repo fs = Inr md_files \<and>
      (\<forall>f\<in>set md_files. \<exists>rel. relative_to repo f = Inr rel \<and>
         (\<forall>p\<in>set [''node_modules/'', ''.git/'', ''target/'', ''build/'', ''dist/'',
                     ''CODEOWNERS'', ''NOTICE'']. \<not> str_in p rel))"
    unfolding discover_markdown_files_def skip_patterns_def by blast
next
  from discover_documentation_files_Inr [of repo fs]
  show "\<exists>doc_files. discover_documentation_files repo fs = Inr doc_files \<and>
      (\<forall>f\<in>set doc_files. \<exists>rel. relative_to repo f = Inr rel \<and>
         (\<forall>p\<in>set [''node_modules/'', ''.git/'', ''target/'', ''build/'', ''dist/'',
                     ''CODEOWNERS'', ''NOTICE'']. \<not> str_in p rel) \<and>
         (\<exists>ext\<in>set [''.md'', ''.mdx'', ''.bob'', ''.msc'', ''.pdf''].
            suffix ext f \<and> (path_suffix f = ext \<or> path_name f = ext)))"
    unfolding skip_patterns_def supported_extensions_def .
qed

theorem discovery_excludes_skipped_witness:
  "discover_markdown_files ''solana-agave'' example_files = Inr [''solana-agave/README.md'',
       ''solana-agave/docs/blank.md'']
   \<and> discover_documentation_files ''solana-agave-full'' example_files =
       Inr [''solana-agave-full/README.md'', ''solana-agave-full/docs/blank.md'',
            ''solana-agave-full/docs/flow.bob'', ''solana-agave-full/zk-docs/proof.pdf'']
   \<and> (\<exists>rel. relative_to ''solana-agave'' ''solana-agave/docs/blank.md'' = Inr rel \<and>
         \<not> str_in ''node_modules/'' rel \<and> \<not> str_in ''NOTICE'' rel)
   \<and> (\<exists>rel. relative_to ''solana-agave-full'' ''solana-agave-full/docs/flow.bob'' = Inr rel \<and>
         \<not> str_in ''node_modules/'' rel \<and> \<not> str_in ''NOTICE'' rel)
   \<and> (\<exists>ext. ext \<in> set [''.md'', ''.mdx'', ''.bob'', ''.msc'', ''.pdf'']
         \<and> suffix ext ''solana-agave-full/docs/flow.bob''
         \<and> (path_suffix ''solana-agave-full/docs/flow.bob'' = ext
            \<or> path_name ''solana-agave-full/docs/flow.bob'' = ext))
   \<and> path_suffix ''solana-agave-full/docs/flow.bob'' = ''.bob''"
proof -
  let ?skip = "[''node_modules/'', ''.git/'', ''target/'', ''build/'', ''dist/'',
                     ''CODEOWNERS'', ''NOTICE'']"
  have m: "discover_markdown_files ''solana-agave'' example_files = Inr [''solana-agave/README.md'',
       ''solana-agave/docs/blank.md'']"
    by code_simp
  have d: "discover_documentation_files ''solana-agave-full'' example_files =
       Inr [''solana-agave-full/README.md'', ''solana-agave-full/docs/blank.md'',
            ''solana-agave-full/docs/flow.bob'', ''solana-agave-full/zk-docs/proof.pdf'']"
    by code_simp
  have b: "path_suffix ''solana-agave-full/docs/flow.bob'' = ''.bob''"
    by code_simp
  have in_skip: "''node_modules/'' \<in> set ?skip" "''NOTICE'' \<in> set ?skip"
    by simp_all
  from discovery_excludes_skipped [of "''solana-agave''" example_files]
  obtain md_files where md: "discover_markdown_files ''solana-agave'' example_files = Inr md_files"
    and md_all: "\<forall>f\<in>set md_files. \<exists>rel. relative_to ''solana-agave'' f = Inr rel \<and>
         (\<forall>p\<in>set ?skip. \<not> str_in p rel)"
    by blast
  from md m have "md_files = [''solana-agave/README.md'', ''solana-agave/docs/blank.md'']"
    by simp
  then have "''solana-agave/docs/blank.md'' \<in> set md_files"
    by simp
  with md_all obtain rel where r1: "relative_to ''solana-agave'' ''solana-agave/docs/blank.md'' = Inr rel"
    and s1: "\<forall>p\<in>set ?skip. \<not> str_in p rel"
    by blast
  from s1 in_skip have "\<not> str_in ''node_modules/'' rel" "\<not> str_in ''NOTICE'' rel"
    by blast+
  with r1 have 3: "\<exists>rel. relative_to ''solana-agave'' ''solana-agave/docs/blank.md'' = Inr rel \<and>
         \<not> str_in ''node_modules/'' rel \<and> \<not> str_in ''NOTICE'' rel"
    by blast
  from discovery_excludes_skipped [of "''solana-agave-full''" example_files]
  obtain doc_files
    where dd: "discover_documentation_files ''solana-agave-full'' example_files = Inr doc_files"
    and dd_all: "\<forall>f\<in>set doc_files. \<exists>rel. relative_to ''solana-agave-full'' f = Inr rel \<and>
         (\<forall>p\<in>set ?skip. \<not> str_in p rel) \<and>
         (\<exists>ext\<in>set [''.md'', ''.mdx'', ''.bob'', ''.msc'', ''.pdf''].
            suffix ext f \<and> (path_suffix f = ext \<or> path_name f = ext))"
    by blast
  from dd d have "doc_files = [''solana-agave-full/README.md'', ''solana-agave-full/docs/blank.md'',
            ''solana-agave-full/docs/flow.bob'', ''solana-agave-full/zk-docs/proof.pdf'']"
    by simp
  then have "''solana-agave-full/docs/flow.bob'' \<in> set doc_files"
    by simp
  with dd_all obtain rel' ext
    where r2: "relative_to ''solana-agave-full'' ''solana-agave-full/docs/flow.bob'' = Inr rel'"
    and s2: "\<forall>p\<in>set ?skip. \<not> str_in p rel'"
    and e2: "ext \<in> set [''.md'', ''.mdx'', ''.bob'', ''.msc'', ''.pdf'']"
      "suffix ext ''solana-agave-full/docs/flow.bob''"
      "path_suffix ''solana-agave-full/docs/flow.bob'' = ext
         \<or> path_name ''solana-agave-full/docs/flow.bob'' = ext"
    by blast
  from s2 in_skip have "\<not> str_in ''node_modules/'' rel'" "\<not> str_in ''NOTICE'' rel'"
    by blast+
  with r2 have 4: "\<exists>rel. relative_to ''solana-agave-full'' ''solana-agave-full/docs/flow.bob'' = Inr rel \<and>
         \<not> str_in ''node_modules/'' rel \<and> \<not> str_in ''NOTICE'' rel"
    by blast
  from e2 have 5: "\<exists>ext. ext \<in> set [''.md'', ''.mdx'', ''.bob'', ''.msc'', ''.pdf'']
         \<and> suffix ext ''solana-agave-full/docs/flow.bob''
         \<and> (path_suffix ''solana-agave-full/docs/flow.bob'' = ext
            \<or> path_name ''solana-agave-full/docs/flow.bob'' = ext)"
    by (intro exI [of _ ext] conjI)
  from m d 3 4 5 b show ?thesis by (intro conjI)
qed

text \<open>
  C9 (as stated) fails at a checkout with a file named \<open>.md\<close>:
  \<open>discover_documentation_files\<close> returns the file, and its extension, as
  \<open>Path.suffix\<close> gives it, is the empty string, which is none of the five.
\<close>

theorem dotfile_extension_counterexample:
  "discover_documentation_files ''solana-agave-full'' dotfile_files
     = Inr [''solana-agave-full/docs/.md'']
   \<and> path_name ''solana-agave-full/docs/.md'' = ''.md''
   \<and> path_suffix ''solana-agave-full/docs/.md'' = []
   \<and> path_suffix ''solana-agave-full/docs/.md'' \<notin> set supported_extensions"
  by code_simp

section \<open>Blank files and cleaned content\<close>

lemma ink_append: "ink (a @ b) = ink a @ ink b"
  by (simp add: ink_def)

lemma ink_dropWhile: "ink (dropWhile is_space s) = ink s"
  by (induction s) (simp_all add: ink_def)

lemma ink_rev: "ink (rev s) = rev (ink s)"
  by (simp add: ink_def rev_filter)

lemma ink_strip: "ink (strip s) = ink s"
  by (simp add: strip_def ink_rev ink_dropWhile)

lemma ink_empty_iff: "ink s = [] \<longleftrightarrow> (\<forall>c\<in>set s. is_space c)"
  by (auto simp: ink_def filter_empty_conv)

lemma strip_blank: "\<forall>c\<in>set s. is_space c \<Longrightarrow> strip s = []"
proof -
  assume "\<forall>c\<in>set s. is_space c"
  then have d: "dropWhile is_space s = []" by (induction s) simp_all
  show ?thesis unfolding strip_def d by simp
qed

lemma strip_empty_iff: "strip s = [] \<longleftrightarrow> ink s = []"
proof
  assume "strip s = []"
  then have "ink (strip s) = []" by (simp add: ink_def)
  then show "ink s = []" by (simp add: ink_strip)
next
  assume "ink s = []"
  then show "strip s = []" by (simp add: ink_empty_iff strip_blank)
qed

text \<open>A match of a white-space pattern takes white space off the front.\<close>

lemma rx_match_space:
  "rx_match items s = Some r \<Longrightarrow> list_all space_item items \<Longrightarrow>
   \<exists>m. s = m @ r \<and> ink m = []"
proof (induction items s arbitrary: r rule: rx_match.induct)
  case (1 s)
  then show ?case by (simp add: ink_def)
next
  case (2 p items)
  then show ?case by simp
next
  case (3 p items c cs)
  from "3.prems" have pc: "p c" and rest: "rx_match items cs = Some r"
    by (simp_all split: if_splits)
  from "3.prems" pc have sp: "is_space c" by simp
  from "3.IH" [OF pc rest] "3.prems" obtain m where "cs = m @ r" "ink m = []"
    by auto
  with sp have "c # cs = (c # m) @ r \<and> ink (c # m) = []"
    by (simp add: ink_def)
  then show ?case by blast
next
  case (4 p items)
  then show ?case by simp
next
  case (5 p items c cs)
  show ?case
  proof (cases "p c")
    case True
    with "5.prems" have sp: "is_space c" by simp
    show ?thesis
    proof (cases "rx_match (Star p # items) cs")
      case None
      with True "5.prems" have "rx_match items (c # cs) = Some r" by simp
      from "5.IH"(2) [OF True None this] "5.prems" show ?thesis by simp
    next
      case (Some r')
      with True "5.prems" have "r' = r" by simp
      with Some have "rx_match (Star p # items) cs = Some r" by simp
      from "5.IH"(1) [OF True this] "5.prems" obtain m where "cs = m @ r" "ink m = []"
        by auto
      with sp have "c # cs = (c # m) @ r \<and> ink (c # m) = []"
        by (simp add: ink_def)
      then show ?thesis by blast
    qed
  next
    case False
    with "5.prems" have "rx_match items (c # cs) = Some r" by simp
    from "5.IH"(3) [OF False this] "5.prems" show ?thesis by simp
  qed
qed

lemma ink_re_sub:
  assumes "list_all space_item items" and "ink repl = []"
  shows "ink (re_sub items repl skip s) = ink (drop skip s)"
proof (induction s arbitrary: skip)
  case Nil
  from assms(2) show ?case by (simp add: ink_def)
next
  case (Cons c cs)
  show ?case
  proof (cases "0 < skip")
    case True
    then obtain k where k: "skip = Suc k" by (cases skip) simp_all
    with Cons.IH [of k] show ?thesis by simp
  next
    case False
    then have skip: "skip = 0" by simp
    show ?thesis
    proof (cases "rx_match items (c # cs)")
      case None
      with skip Cons.IH [of 0] show ?thesis by (simp add: ink_def)
    next
      case (Some r)
      from rx_match_space [OF Some assms(1)] obtain m where m: "c # cs = m @ r" "ink m = []"
        by blast
      show ?thesis
      proof (cases "length r < length (c # cs)")
        case True
        with m(1) obtain m' where m': "m = c # m'"
          by (cases m) auto
        with m(1) have cs: "cs = m' @ r" by simp
        then have "drop (length cs - length r) cs = r" by simp
        with Cons.IH [of "length cs - length r"]
        have "ink (re_sub items repl (length cs - length r) cs) = ink r" by simp
        moreover from m have "ink (c # cs) = ink r" by (simp add: ink_append)
        ultimately show ?thesis
          using True Some skip assms(2) by (simp add: ink_append)
      next
        case False
        with Some skip Cons.IH [of 0] assms(2) show ?thesis
          by (simp add: ink_append) (simp add: ink_def)
      qed
    qed
  qed
qed

lemma ink_re_sub_at_start:
  assumes "list_all space_item items" and "ink repl = []"
  shows "ink (re_sub_at_start items repl s) = ink s"
proof (cases "rx_match items s")
  case None
  then show ?thesis by (simp add: re_sub_at_start_def)
next
  case (Some r)
  from rx_match_space [OF Some assms(1)] obtain m where "s = m @ r" "ink m = []"
    by blast
  with Some assms(2) show ?thesis
    by (simp add: re_sub_at_start_def ink_append)
qed

lemma is_space_newline: "is_newline c \<Longrightarrow> is_space c"
  by (simp add: is_newline_def is_space_def)

lemma ink_newline: "ink newline = []"
  by (simp add: ink_def newline_def is_space_def)

lemma ink_clean_markdown_content: "ink (clean_markdown_content s) = ink s"
proof -
  have 1: "list_all space_item [Star is_space, One is_newline]"
    by (simp add: is_space_newline)
  have 2: "list_all space_item
             [One is_newline, Star is_space, One is_newline, Star is_space, One is_newline]"
    by (simp add: is_space_newline)
  have 3: "ink (newline @ newline) = []" "ink [] = []"
    by (simp_all add: ink_append ink_newline) (simp add: ink_def)
  show ?thesis
    unfolding clean_markdown_content_def
    by (simp add: ink_strip ink_re_sub_at_start [OF 1 3(2)] ink_re_sub [OF 2 3(1)])
qed

lemma clean_markdown_content_nonempty:
  "strip raw \<noteq> [] \<Longrightarrow> clean_markdown_content raw \<noteq> []"
proof -
  assume "strip raw \<noteq> []"
  then have "ink raw \<noteq> []" by (simp add: strip_empty_iff)
  then have "ink (clean_markdown_content raw) \<noteq> []" by (simp add: ink_clean_markdown_content)
  then show ?thesis by (auto simp: ink_def)
qed

lemma clean_content_nonempty: "strip raw \<noteq> [] \<Longrightarrow> clean_content raw ftype \<noteq> []"
proof -
  assume a: "strip raw \<noteq> []"
  then have "clean_markdown_content raw \<noteq> []" by (rule clean_markdown_content_nonempty)
  with a show ?thesis
    by (simp add: clean_content_def clean_markdown_content_def)
qed

lemma pdf_description_nonempty: "pdf_description ttl rel \<noteq> []"
  by (simp add: pdf_description_def)

lemma process_markdown_blank:
  assumes "read_text (files env) path = Inr raw" and "\<forall>c\<in>set raw. is_space c"
  shows "fst (process_markdown_file env path) = Inr None"
proof (cases "relative_to (repo_path env) path")
  case (Inl e)
  then show ?thesis
    by (simp add: process_markdown_file_def process_markdown_try_def)
next
  case (Inr rel)
  with assms strip_blank [OF assms(2)] show ?thesis
    by (simp add: process_markdown_file_def process_markdown_try_def bind_exn_def)
qed

lemma process_documentation_blank:
  assumes "lower (drop 1 (path_suffix path)) \<noteq> ''pdf''"
    and "read_text (files env) path = Inr raw" and "\<forall>c\<in>set raw. is_space c"
  shows "fst (process_documentation_file env path) = Inr None"
proof (cases "relative_to (repo_path env) path")
  case (Inl e)
  then show ?thesis
    by (simp add: process_documentation_file_def process_documentation_try_def)
next
  case (Inr rel)
  with assms strip_blank [OF assms(3)] show ?thesis
    by (simp add: process_documentation_file_def process_documentation_try_def bind_exn_def
        Let_def)
qed

lemma process_markdown_document:
  assumes "fst (process_markdown_file env path) = Inr (Some doc)"
  shows "doc_content doc \<noteq> [] \<and> file_path doc = path
         \<and> relative_to (repo_path env) path = Inr (relative_path doc)"
proof (cases "relative_to (repo_path env) path")
  case (Inl e)
  with assms show ?thesis
    by (simp add: process_markdown_file_def process_markdown_try_def)
next
  case (Inr rel)
  show ?thesis
  proof (cases "read_text (files env) path")
    case (Inl e)
    with Inr assms show ?thesis
      by (simp add: process_markdown_file_def process_markdown_try_def bind_exn_def)
  next
    case r: (Inr raw)
    show ?thesis
    proof (cases "strip raw = []")
      case True
      with Inr r assms show ?thesis
        by (simp add: process_markdown_file_def process_markdown_try_def bind_exn_def)
    next
      case False
      with Inr r assms clean_markdown_content_nonempty [OF False] show ?thesis
        by (auto simp: process_markdown_file_def process_markdown_try_def bind_exn_def Let_def)
    qed
  qed
qed

lemma process_documentation_document:
  assumes "fst (process_documentation_file env path) = Inr (Some doc)"
  shows "doc_content doc \<noteq> [] \<and> file_path doc = path
         \<and> relative_to (repo_path env) path = Inr (relative_path doc)"
proof (cases "relative_to (repo_path env) path")
  case (Inl e)
  with assms show ?thesis
    by (simp add: process_documentation_file_def process_documentation_try_def)
next
  case (Inr rel)
  show ?thesis
  proof (cases "lower (drop 1 (path_suffix path)) = ''pdf''")
    case True
    show ?thesis
    proof (cases "read_size (files env) path")
      case (Inl e)
      with Inr True assms show ?thesis
        by (simp add: process_documentation_file_def process_documentation_try_def bind_exn_def)
    next
      case s: (Inr file_size)
      with Inr True assms pdf_description_nonempty show ?thesis
        by (auto simp: process_documentation_file_def process_documentation_try_def
            bind_exn_def Let_def)
    qed
  next
    case False
    show ?thesis
    proof (cases "read_text (files env) path")
      case (Inl e)
      with Inr False assms show ?thesis
        by (simp add: process_documentation_file_def process_documentation_try_def bind_exn_def)
    next
      case r: (Inr raw)
      show ?thesis
      proof (cases "strip raw = []")
        case True
        with Inr False r assms show ?thesis
          by (simp add: process_documentation_file_def process_documentation_try_def
              bind_exn_def Let_def)
      next
        case ne: False
        with Inr False r assms
          clean_content_nonempty [OF ne, of "lower (drop 1 (path_suffix path))"]
        show ?thesis
          by (auto simp: process_documentation_file_def process_documentation_try_def
              bind_exn_def Let_def)
      qed
    qed
  qed
qed

text \<open>The documents of the loop are the documents of its files.\<close>

lemma process_files_documents:
  "fst (process_files process env paths) = Inr docs \<Longrightarrow> d \<in> set docs \<Longrightarrow>
   \<exists>path\<in>set paths. fst (process env path) = Inr (Some d)"
proof (induction paths arbitrary: docs)
  case Nil
  then show ?case by simp
next
  case (Cons path paths)
  obtain r evs where p: "process env path = (r, evs)"
    by (cases "process env path")
  obtain a evs' where l: "process_files process env paths = (a, evs')"
    by (cases "process_files process env paths")
  from Cons.prems(1) p l obtain rel doc rest
    where parts: "relative_to (repo_path env) path = Inr rel" "r = Inr doc" "a = Inr rest"
      "docs = (case doc of None \<Rightarrow> [] | Some d \<Rightarrow> [d]) @ rest"
    by (auto split: sum.splits)
  from Cons.prems(2) parts(4) consider "doc = Some d" | "d \<in> set rest"
    by (cases doc) auto
  then show ?case
  proof cases
    case 1
    with p parts(2) show ?thesis by simp
  next
    case 2
    from l parts(3) have "fst (process_files process env paths) = Inr rest" by simp
    from Cons.IH [OF this 2] show ?thesis by auto
  qed
qed

lemma process_all_markdown_documents:
  "fst (process_all_markdown env) = Inr docs \<Longrightarrow> d \<in> set docs \<Longrightarrow>
   \<exists>path. fst (process_markdown_file env path) = Inr (Some d)"
  by (cases "discover_markdown_files (repo_path env) (files env)")
    (auto simp: process_all_markdown_def dest: process_files_documents)

lemma process_all_files_documents:
  "fst (process_all_files env) = Inr docs \<Longrightarrow> d \<in> set docs \<Longrightarrow>
   \<exists>path. fst (process_documentation_file env path) = Inr (Some d)"
  by (cases "discover_documentation_files (repo_path env) (files env)")
    (auto simp: process_all_files_def dest: process_files_documents)

text \<open>A row after a batch is a row from before or carries the content of the batch.\<close>

lemma content_after_upsert_all:
  "r \<in> set (documents (upsert_all env vals conn)) \<Longrightarrow>
   r \<in> set (documents conn) \<or> content r \<in> set (map (\<lambda>v. fst (snd v)) vals)"
proof (induction vals arbitrary: conn)
  case Nil
  then show ?case by (simp add: upsert_all_def)
next
  case (Cons v vals)
  obtain dt sn dp c m e tc where v: "v = ((dt, sn, dp), (c, m, e, tc))"
    by (metis prod.exhaust)
  from Cons.prems have "r \<in> set (documents (upsert_all env vals (upsert_values env v conn)))"
    by (simp add: upsert_all_def)
  from Cons.IH [OF this]
  consider "r \<in> set (documents (upsert_values env v conn))"
    | "content r \<in> set (map (\<lambda>v. fst (snd v)) vals)"
    by blast
  then show ?case
  proof cases
    case 1
    then have "r \<in> set (documents conn) \<or> content r = c"
      by (auto simp: v upsert_document_def Let_def do_update_def split: if_splits)
    with v show ?thesis by auto
  next
    case 2
    then show ?thesis by simp
  qed
qed

lemma content_after_store_documents:
  assumes "\<forall>d\<in>set docs. doc_content d \<noteq> []"
    and "r \<in> set (documents (store_documents env jd conn docs embs))"
  shows "r \<in> set (documents conn) \<or> content r \<noteq> []"
proof -
  from assms(2) content_after_upsert_all
  have "r \<in> set (documents conn)
        \<or> content r \<in> set (map (\<lambda>v. fst (snd v)) (map (solana_values jd) (zip docs embs)))"
    unfolding documents_store_documents by blast
  moreover have "set (map (\<lambda>v. fst (snd v)) (map (solana_values jd) (zip docs embs)))
                   \<subseteq> doc_content ` set docs"
    by (auto simp: solana_values_def dest: set_zip_leftD)
  ultimately show ?thesis using assms(1) by auto
qed

text \<open>
  C10.  A file whose content is empty or all white space gives \<open>None\<close> in
  \<open>process_markdown_file\<close> and, when it is not a PDF, in \<open>process_documentation_file\<close>,
  so none of the documents of \<open>process_all_files\<close> comes from it.  Every document of
  \<open>process_all_files\<close> (of either script) has non-empty content, and after
  \<open>store_documents\<close> has stored them every row of the table is a row that was there
  before or has non-empty content.
\<close>

theorem blank_files_dropped:
  "(read_text (files senv) path = Inr raw \<and> (\<forall>c\<in>set raw. is_space c) \<longrightarrow>
      fst (process_markdown_file senv path) = Inr None
      \<and> (\<forall>docs. fst (process_all_markdown senv) = Inr docs \<longrightarrow> path \<notin> file_path ` set docs))
   \<and> (lower (drop 1 (path_suffix path)) \<noteq> ''pdf'' \<and> read_text (files senv) path = Inr raw
        \<and> (\<forall>c\<in>set raw. is_space c) \<longrightarrow>
      fst (process_documentation_file senv path) = Inr None
      \<and> (\<forall>docs. fst (process_all_files senv) = Inr docs \<longrightarrow> path \<notin> file_path ` set docs))
   \<and> (fst (process_all_markdown senv) = Inr docs \<or> fst (process_all_files senv) = Inr docs \<longrightarrow>
      (\<forall>d\<in>set docs. doc_content d \<noteq> [])
      \<and> (\<forall>r\<in>set (documents (store_documents env json_dumps conn docs embs)).
            r \<in> set (documents conn) \<or> content r \<noteq> []))"
proof (intro conjI impI)
  assume a: "read_text (files senv) path = Inr raw \<and> (\<forall>c\<in>set raw. is_space c)"
  then show none: "fst (process_markdown_file senv path) = Inr None"
    using process_markdown_blank by blast
  show "\<forall>docs. fst (process_all_markdown senv) = Inr docs \<longrightarrow> path \<notin> file_path ` set docs"
  proof (intro allI impI notI)
    fix docs assume "fst (process_all_markdown senv) = Inr docs" "path \<in> file_path ` set docs"
    then obtain d p where "d \<in> set docs" "file_path d = path"
      "fst (process_markdown_file senv p) = Inr (Some d)"
      using process_all_markdown_documents by blast
    with process_markdown_document [of senv p d] none show False by simp
  qed
next
  assume a: "lower (drop 1 (path_suffix path)) \<noteq> ''pdf'' \<and> read_text (files senv) path = Inr raw
        \<and> (\<forall>c\<in>set raw. is_space c)"
  then show none: "fst (process_documentation_file senv path) = Inr None"
    using process_documentation_blank by blast
  show "\<forall>docs. fst (process_all_files senv) = Inr docs \<longrightarrow> path \<notin> file_path ` set docs"
  proof (intro allI impI notI)
    fix docs assume "fst (process_all_files senv) = Inr docs" "path \<in> file_path ` set docs"
    then obtain d p where "d \<in> set docs" "file_path d = path"
      "fst (process_documentation_file senv p) = Inr (Some d)"
      using process_all_files_documents by blast
    with process_documentation_document [of senv p d] none show False by simp
  qed
next
  assume a: "fst (process_all_markdown senv) = Inr docs \<or> fst (process_all_files senv) = Inr docs"
  show ne: "\<forall>d\<in>set docs. doc_content d \<noteq> []"
  proof
    fix d assume d: "d \<in> set docs"
    from a show "doc_content d \<noteq> []"
    proof
      assume "fst (process_all_markdown senv) = Inr docs"
      with d process_all_markdown_documents process_markdown_document show ?thesis by blast
    next
      assume "fst (process_all_files senv) = Inr docs"
      with d process_all_files_documents process_documentation_document show ?thesis by blast
    qed
  qed
  then show "\<forall>r\<in>set (documents (store_documents env json_dumps conn docs embs)).
            r \<in> set (documents conn) \<or> content r \<noteq> []"
    using content_after_store_documents by blast
qed

theorem blank_files_dropped_witness:
  "read_text (files example_solana_env) ''solana-agave/docs/blank.md''
     = Inr ('' '' @ newline @ newline)
   \<and> list_all is_space ('' '' @ newline @ newline)
   \<and> fst (process_markdown_file example_solana_env ''solana-agave/docs/blank.md'') = Inr None
   \<and> lower (drop 1 (path_suffix ''solana-agave-full/docs/blank.md'')) \<noteq> ''pdf''
   \<and> fst (process_documentation_file (example_solana_env\<lparr>repo_path := ''solana-agave-full''\<rparr>)
        ''solana-agave-full/docs/blank.md'') = Inr None
   \<and> (\<exists>docs. fst (process_all_files (example_solana_env\<lparr>repo_path := ''solana-agave-full''\<rparr>))
          = Inr docs
        \<and> map relative_path docs = [''README.md'', ''docs/flow.bob'', ''zk-docs/proof.pdf'']
        \<and> ''solana-agave-full/docs/blank.md'' \<notin> file_path ` set docs
        \<and> list_all (\<lambda>d. doc_content d \<noteq> []) docs
        \<and> list_all (\<lambda>r. content r \<noteq> [])
            (documents (store_documents example_env example_dumps empty_db docs [[1], [2], [3]])))"
proof -
  let ?env = "example_solana_env\<lparr>repo_path := ''solana-agave-full''\<rparr>"
  let ?raw = "'' '' @ newline @ newline"
  have r1: "read_text (files example_solana_env) ''solana-agave/docs/blank.md'' = Inr ?raw"
    by code_simp
  have r2: "read_text (files ?env) ''solana-agave-full/docs/blank.md'' = Inr ?raw"
    by code_simp
  have sp: "list_all is_space ?raw"
    by code_simp
  then have sp': "\<forall>c\<in>set ?raw. is_space c"
    by (simp only: list_all_iff)
  have np: "lower (drop 1 (path_suffix ''solana-agave-full/docs/blank.md'')) \<noteq> ''pdf''"
    by code_simp
  have ev: "case fst (process_all_files ?env) of
              Inl e \<Rightarrow> False
            | Inr ds \<Rightarrow> map relative_path ds = [''README.md'', ''docs/flow.bob'', ''zk-docs/proof.pdf'']"
    by code_simp
  then obtain docs where docs: "fst (process_all_files ?env) = Inr docs"
    and rels: "map relative_path docs = [''README.md'', ''docs/flow.bob'', ''zk-docs/proof.pdf'']"
    by (cases "fst (process_all_files ?env)") simp_all
  have db: "documents empty_db = []"
    by (simp add: empty_db_def)
  from blank_files_dropped [where senv = example_solana_env
      and path = "''solana-agave/docs/blank.md''" and raw = ?raw] r1 sp'
  have 1: "fst (process_markdown_file example_solana_env ''solana-agave/docs/blank.md'') = Inr None"
    by blast
  from blank_files_dropped [where senv = ?env and path = "''solana-agave-full/docs/blank.md''"
      and raw = ?raw] r2 sp' np
  have 2: "fst (process_documentation_file ?env ''solana-agave-full/docs/blank.md'') = Inr None"
    and 3: "\<forall>docs. fst (process_all_files ?env) = Inr docs \<longrightarrow>
              ''solana-agave-full/docs/blank.md'' \<notin> file_path ` set docs"
    by blast+
  from 3 docs have 4: "''solana-agave-full/docs/blank.md'' \<notin> file_path ` set docs"
    by blast
  from blank_files_dropped [where senv = ?env and docs = docs and env = example_env
      and json_dumps = example_dumps and conn = empty_db and embs = "[[1], [2], [3]]"] docs
  have 5: "\<forall>d\<in>set docs. doc_content d \<noteq> []"
    and 6: "\<forall>r\<in>set (documents (store_documents example_env example_dumps empty_db docs
                [[1], [2], [3]])). r \<in> set (documents empty_db) \<or> content r \<noteq> []"
    by blast+
  from 5 have 7: "list_all (\<lambda>d. doc_content d \<noteq> []) docs"
    by (simp only: list_all_iff)
  from 6 have 8: "list_all (\<lambda>r. content r \<noteq> [])
            (documents (store_documents example_env example_dumps empty_db docs [[1], [2], [3]]))"
    unfolding db by (simp add: list_all_iff)
  from docs rels 4 7 8
  have "\<exists>docs. fst (process_all_files ?env) = Inr docs
        \<and> map relative_path docs = [''README.md'', ''docs/flow.bob'', ''zk-docs/proof.pdf'']
        \<and> ''solana-agave-full/docs/blank.md'' \<notin> file_path ` set docs
        \<and> list_all (\<lambda>d. doc_content d \<noteq> []) docs
        \<and> list_all (\<lambda>r. content r \<noteq> [])
            (documents (store_documents example_env example_dumps empty_db docs [[1], [2], [3]]))"
    by (intro exI [of _ docs] conjI)
  with r1 sp 1 np 2 show ?thesis by (intro conjI)
qed

section \<open>How doc\_path is derived\<close>











text \<open>
  C5 (as stated) fails on a run of \<open>main\<close> of \<open>ingest_solana_comprehensive\<close> over a
  checkout with three documents: the file of the second document is read before the
  upsert of the first document, and it is not read after that upsert.  It fails on a
  run of \<open>main\<close> of \<open>ingest_birdeye\<close> against a site that answers every request, too:
  the second URL is requested, and not after an upsert of the first endpoint.
\<close>

theorem document_by_document_counterexample:
  "\<not> precedes
       (Upsert ''solana'' ''Solana Agave'' ''README.md'')
       (ReadFile ''solana-agave-full/docs/flow.bob'')
       (snd (snd (main_solana (Some ''postgresql://docs'') (Some ''sk-key'') True
          example_solana_env example_api example_env example_dumps empty_db)))
   \<and> precedes
       (ReadFile ''solana-agave-full/docs/flow.bob'')
       (Upsert ''solana'' ''Solana Agave'' ''README.md'')
       (snd (snd (main_solana (Some ''postgresql://docs'') (Some ''sk-key'') True
          example_solana_env example_api example_env example_dumps empty_db)))
   \<and> \<not> precedes
       (Upsert ''birdeye'' ''birdeye-api''
          (''get'' @ replace_char CHR ''/'' CHR ''_'' (api_url_of (discover_all_endpoints ! 0))))
       (HttpGet (api_url_of (discover_all_endpoints ! 1)))
       (snd (snd (main_birdeye (Some ''postgresql://docs'') (Some ''sk-key'') echo_http
          example_post example_py example_env example_dumps empty_db)))
   \<and> HttpGet (api_url_of (discover_all_endpoints ! 1))
       \<in> set (snd (snd (main_birdeye (Some ''postgresql://docs'') (Some ''sk-key'') echo_http
          example_post example_py example_env example_dumps empty_db)))"
  by code_simp

end
